theory Spec2Isabelle
  imports Complex_Main "HOL-Library.Word" "HOL-Library.Signed_Division" "HOL-Library.Log_Nat"
begin

section \<open>Machine integers and run-time failures\<close>

text \<open>
  The program computes with C++ \<open>int\<close>. Values of that type are modelled as HOL integers,
  and every arithmetic operation whose mathematical result can leave the range of a
  32-bit \<open>int\<close> is checked: signed overflow is undefined behaviour in C++, and the model
  makes it the failure \<open>SignedOverflow\<close> instead of choosing a result. Integer division
  by zero (undefined as well) is \<open>DivisionByZero\<close>. Constructing a \<open>std::vector\<close> from a
  negative \<open>int\<close> converts it to a huge unsigned size and throws \<open>std::length_error\<close>;
  that is \<open>LengthError\<close>. An \<open>operator[]\<close> store outside the vector is \<open>OutOfBounds\<close>.
\<close>

datatype error = SignedOverflow | DivisionByZero | LengthError | OutOfBounds

definition INT_MAX :: int where
  "INT_MAX = 2147483647"

definition INT_MIN :: int where
  "INT_MIN = - 2147483648"

definition in_int :: "int \<Rightarrow> bool" where
  "in_int v = (INT_MIN \<le> v \<and> v \<le> INT_MAX)"

section \<open>Colours\<close>

text \<open>\<open>struct RGB { unsigned char r, g, b; }\<close>: three 8-bit channels.\<close>

record RGB =
  r :: "8 word"
  g :: "8 word"
  b :: "8 word"

definition black :: RGB where
  "black = \<lparr>r = 0, g = 0, b = 0\<rparr>"

text \<open>
  \<open>getColor\<close> (lines 20 to 31). The quotient \<open>/\<close> and the remainder \<open>%\<close> of C++ truncate
  towards zero: they are \<open>sdiv\<close> and \<open>smod\<close>. The cast \<open>(unsigned char)\<close> reduces
  modulo 256: it is \<open>word_of_int\<close>. \<open>colorValue * 2 % 255\<close> parses as
  \<open>(colorValue * 2) % 255\<close>.
\<close>

definition getColor :: "int \<Rightarrow> int \<Rightarrow> error + RGB" where
  "getColor iterations maxIterations =
     (if iterations = maxIterations then Inr \<lparr>r = 0, g = 0, b = 0\<rparr>
      else if \<not> in_int (iterations * 255) then Inl SignedOverflow
      else if maxIterations = 0 then Inl DivisionByZero
      else if \<not> in_int ((iterations * 255) sdiv maxIterations) then Inl SignedOverflow
      else
        let colorValue = (iterations * 255) sdiv maxIterations in
        if \<not> in_int (colorValue * 2) then Inl SignedOverflow
        else if \<not> in_int (colorValue * 4) then Inl SignedOverflow
        else Inr \<lparr>r = word_of_int (colorValue smod 255),
                  g = word_of_int (colorValue * 2 smod 255),
                  b = word_of_int (colorValue * 4 smod 255)\<rparr>)"

section \<open>Floating-point arithmetic as a parameter\<close>

text \<open>
  The coordinates are C++ \<open>double\<close>s. The shape of the loops does not depend on how the
  platform rounds, so the arithmetic is a parameter of the model: a value of type
  \<open>'f arith\<close> gives the type \<open>'f\<close> of floating-point values its four operations, the
  comparison \<open><\<close>, the conversion from \<open>int\<close> and the value of a decimal literal. A
  theorem stated for every \<open>A :: 'f arith\<close> holds for IEEE binary64 with any rounding,
  with NaN and with infinities, since nothing is assumed of the operations.
\<close>

record 'f arith =
  f_add :: "'f \<Rightarrow> 'f \<Rightarrow> 'f"
  f_sub :: "'f \<Rightarrow> 'f \<Rightarrow> 'f"
  f_mul :: "'f \<Rightarrow> 'f \<Rightarrow> 'f"
  f_div :: "'f \<Rightarrow> 'f \<Rightarrow> 'f"
  f_less :: "'f \<Rightarrow> 'f \<Rightarrow> bool"
  f_int :: "int \<Rightarrow> 'f"
  f_lit :: "rat \<Rightarrow> 'f"

text \<open>
  Exact arithmetic: the operations of the real numbers. It has no rounding, no NaN and
  no infinity, and its quotient by zero is HOL's (zero), which is no model of the
  program's; it is used only where nothing is divided by zero.
\<close>

definition real_arith :: "real arith" where
  "real_arith = \<lparr>f_add = (+), f_sub = (-), f_mul = (*), f_div = (/), f_less = (<),
     f_int = of_int, f_lit = of_rat\<rparr>"

section \<open>IEEE 754 binary64\<close>

text \<open>
  On the platforms the program is built for, \<open>double\<close> is the binary64 format of
  IEEE 754, and each operation returns its exact result rounded to the nearest
  representable number, ties to the even significand. A \<open>double\<close> is a finite number,
  a signed zero, a signed infinity or NaN: \<open>Finite q\<close> carries the exact rational value
  \<open>q\<close> of a finite number (\<open>Finite 0\<close> is \<open>+0\<close>), \<open>NegZero\<close> is \<open>-0\<close>.

  \<open>floor_log2 a\<close> is the exponent \<open>e\<close> of the leading bit of \<open>a > 0\<close>
  (\<open>2^e \<le> a < 2^(e+1)\<close>). \<open>round_magnitude\<close> rounds to 53 significant bits; below
  the exponent \<open>-1022\<close> the spacing stays \<open>2^(-1074)\<close> (subnormal numbers).
  \<open>round_to_double\<close> adds the sign, overflow to infinity from \<open>2^1024\<close> on, and
  underflow to a signed zero. Each operation of the program rounds on its own; a
  multiplication and an addition are not fused.
\<close>

datatype double = Finite rat | NegZero | PosInf | NegInf | NaN

definition floor_log2 :: "rat \<Rightarrow> int" where
  "floor_log2 a =
     (let e0 = bitlen (fst (quotient_of a)) - bitlen (snd (quotient_of a))
      in if 2 powi e0 \<le> a then e0 else e0 - 1)"

definition round_half_even :: "rat \<Rightarrow> int" where
  "round_half_even t =
     (let n = \<lfloor>t\<rfloor>; d = t - of_int n
      in if d < 1 / 2 then n
         else if 1 / 2 < d then n + 1
         else if even n then n else n + 1)"

definition round_magnitude :: "rat \<Rightarrow> rat" where
  "round_magnitude a =
     (let e = max (floor_log2 a) (- 1022); u = 2 powi (e - 52)
      in of_int (round_half_even (a / u)) * u)"

definition round_to_double :: "rat \<Rightarrow> double" where
  "round_to_double q =
     (if q = 0 then Finite 0
      else
        let m = round_magnitude \<bar>q\<bar> in
        if 2 ^ 1024 \<le> m then (if q < 0 then NegInf else PosInf)
        else if m = 0 then (if q < 0 then NegZero else Finite 0)
        else Finite (if q < 0 then - m else m))"

fun is_nan :: "double \<Rightarrow> bool" where
  "is_nan NaN = True"
| "is_nan _ = False"

fun is_inf :: "double \<Rightarrow> bool" where
  "is_inf PosInf = True"
| "is_inf NegInf = True"
| "is_inf _ = False"

fun is_zero :: "double \<Rightarrow> bool" where
  "is_zero (Finite q) = (q = 0)"
| "is_zero NegZero = True"
| "is_zero _ = False"

fun is_neg :: "double \<Rightarrow> bool" where
  "is_neg (Finite q) = (q < 0)"
| "is_neg NegZero = True"
| "is_neg NegInf = True"
| "is_neg _ = False"

fun val :: "double \<Rightarrow> rat" where
  "val (Finite q) = q"
| "val _ = 0"

definition signed_zero :: "bool \<Rightarrow> double" where
  "signed_zero neg = (if neg then NegZero else Finite 0)"

definition signed_inf :: "bool \<Rightarrow> double" where
  "signed_inf neg = (if neg then NegInf else PosInf)"

text \<open>
  The operations. An invalid operation (\<open>\<infinity> - \<infinity>\<close>, \<open>0 * \<infinity>\<close>, \<open>0 / 0\<close>, \<open>\<infinity> / \<infinity>\<close>)
  gives NaN, and NaN propagates. An exact sum zero is \<open>+0\<close> unless both summands are
  \<open>-0\<close>; the sign of a product or quotient is the exclusive or of the signs. A
  comparison with NaN is false, and \<open>-0\<close> is not below \<open>+0\<close>.
\<close>

fun d_neg :: "double \<Rightarrow> double" where
  "d_neg (Finite q) = (if q = 0 then NegZero else Finite (- q))"
| "d_neg NegZero = Finite 0"
| "d_neg PosInf = NegInf"
| "d_neg NegInf = PosInf"
| "d_neg NaN = NaN"

definition d_add :: "double \<Rightarrow> double \<Rightarrow> double" where
  "d_add x y =
     (if is_nan x \<or> is_nan y then NaN
      else if is_inf x \<and> is_inf y then (if x = y then x else NaN)
      else if is_inf x then x
      else if is_inf y then y
      else if x = NegZero \<and> y = NegZero then NegZero
      else round_to_double (val x + val y))"

definition d_sub :: "double \<Rightarrow> double \<Rightarrow> double" where
  "d_sub x y = d_add x (d_neg y)"

definition d_mul :: "double \<Rightarrow> double \<Rightarrow> double" where
  "d_mul x y =
     (if is_nan x \<or> is_nan y then NaN
      else if (is_inf x \<and> is_zero y) \<or> (is_zero x \<and> is_inf y) then NaN
      else if is_inf x \<or> is_inf y then signed_inf (is_neg x \<noteq> is_neg y)
      else if is_zero x \<or> is_zero y then signed_zero (is_neg x \<noteq> is_neg y)
      else round_to_double (val x * val y))"

definition d_div :: "double \<Rightarrow> double \<Rightarrow> double" where
  "d_div x y =
     (if is_nan x \<or> is_nan y then NaN
      else if (is_inf x \<and> is_inf y) \<or> (is_zero x \<and> is_zero y) then NaN
      else if is_inf x \<or> is_zero y then signed_inf (is_neg x \<noteq> is_neg y)
      else if is_inf y \<or> is_zero x then signed_zero (is_neg x \<noteq> is_neg y)
      else round_to_double (val x / val y))"

definition d_less :: "double \<Rightarrow> double \<Rightarrow> bool" where
  "d_less x y =
     (if is_nan x \<or> is_nan y then False
      else if x = PosInf \<or> y = NegInf then False
      else if x = NegInf \<or> y = PosInf then True
      else val x < val y)"

text \<open>
  The comparison \<open>==\<close> of two \<open>double\<close>s is \<open>d_eq\<close>: false at NaN, and \<open>-0 == +0\<close>.
  \<open>is_finite\<close> excludes NaN and the infinities. \<open>Finite q\<close> is a \<open>double\<close> only when
  \<open>q\<close> is a binary64 number, that is, when rounding leaves it as it is: \<open>is_double\<close>.
  Every operation returns such a value.
\<close>

definition d_eq :: "double \<Rightarrow> double \<Rightarrow> bool" where
  "d_eq x y =
     (if is_nan x \<or> is_nan y then False
      else if is_inf x \<or> is_inf y then x = y
      else val x = val y)"

definition is_finite :: "double \<Rightarrow> bool" where
  "is_finite x = (\<not> is_nan x \<and> \<not> is_inf x)"

fun is_double :: "double \<Rightarrow> bool" where
  "is_double (Finite q) = (round_to_double q = Finite q)"
| "is_double _ = True"

text \<open>
  The arithmetic of the program. Every 32-bit \<open>int\<close> is a binary64 number, so the
  conversion from \<open>int\<close> is exact; a decimal literal denotes the nearest binary64
  number.
\<close>

definition ieee_arith :: "double arith" where
  "ieee_arith = \<lparr>f_add = d_add, f_sub = d_sub, f_mul = d_mul, f_div = d_div, f_less = d_less,
     f_int = (\<lambda>i. Finite (of_int i)), f_lit = round_to_double\<rparr>"

section \<open>Complex numbers\<close>

text \<open>
  \<open>std::complex<double>\<close> is a pair (real part, imaginary part). The product is
  \<open>(ac - bd, ad + bc)\<close>, the sum is componentwise, and \<open>std::norm\<close> is the squared
  magnitude \<open>a * a + b * b\<close>. (A library may replace a product whose two parts are both
  NaN by infinities; the guard of the loop fails on either.)
\<close>

type_synonym 'f cplx = "'f \<times> 'f"

definition cplx_mul :: "'f arith \<Rightarrow> 'f cplx \<Rightarrow> 'f cplx \<Rightarrow> 'f cplx" where
  "cplx_mul A z w =
     (f_sub A (f_mul A (fst z) (fst w)) (f_mul A (snd z) (snd w)),
      f_add A (f_mul A (fst z) (snd w)) (f_mul A (snd z) (fst w)))"

definition cplx_add :: "'f arith \<Rightarrow> 'f cplx \<Rightarrow> 'f cplx \<Rightarrow> 'f cplx" where
  "cplx_add A z w = (f_add A (fst z) (fst w), f_add A (snd z) (snd w))"

definition cplx_norm :: "'f arith \<Rightarrow> 'f cplx \<Rightarrow> 'f" where
  "cplx_norm A z = f_add A (f_mul A (fst z) (fst z)) (f_mul A (snd z) (snd z))"

section \<open>The escape loop\<close>

text \<open>
  Lines 59 to 69. \<open>bounded A z\<close> is the first conjunct of the loop guard,
  \<open>std::norm(z) < 4.0\<close>, and \<open>mandel_step A c z\<close> is the loop body's update
  \<open>z = z * z + c\<close>. \<open>escape_loop\<close> is the \<open>while\<close> loop from the state
  \<open>(z, iterations)\<close>; the guard is tested before the body. The counter never overflows:
  it is incremented only while it is below \<open>maxIterations\<close>.
\<close>

definition bounded :: "'f arith \<Rightarrow> 'f cplx \<Rightarrow> bool" where
  "bounded A z = f_less A (cplx_norm A z) (f_lit A 4)"

definition mandel_step :: "'f arith \<Rightarrow> 'f cplx \<Rightarrow> 'f cplx \<Rightarrow> 'f cplx" where
  "mandel_step A c z = cplx_add A (cplx_mul A z z) c"

function escape_loop :: "'f arith \<Rightarrow> 'f cplx \<Rightarrow> int \<Rightarrow> 'f cplx \<Rightarrow> int \<Rightarrow> int" where
  "escape_loop A c maxIterations z iterations =
     (if bounded A z \<and> iterations < maxIterations
      then escape_loop A c maxIterations (mandel_step A c z) (iterations + 1)
      else iterations)"
  by pat_completeness auto
termination
  by (relation "measure (\<lambda>(A, c, maxIterations, z, iterations). nat (maxIterations - iterations))") auto

declare escape_loop.simps [simp del]

text \<open>The loop from its initial state \<open>z = (0.0, 0.0)\<close>, \<open>iterations = 0\<close>.\<close>

definition escapeTime :: "'f arith \<Rightarrow> 'f cplx \<Rightarrow> int \<Rightarrow> int" where
  "escapeTime A c maxIterations = escape_loop A c maxIterations (f_lit A 0, f_lit A 0) 0"

text \<open>The orbit of \<open>c\<close>: \<open>orbit A c k\<close> is \<open>z\<close> after \<open>k\<close> updates.\<close>

primrec orbit :: "'f arith \<Rightarrow> 'f cplx \<Rightarrow> nat \<Rightarrow> 'f cplx" where
  "orbit A c 0 = (f_lit A 0, f_lit A 0)"
| "orbit A c (Suc k) = mandel_step A c (orbit A c k)"

section \<open>From pixels to the complex plane\<close>

text \<open>
  Lines 43 to 46: the bounds of the viewed region. \<open>-2.0\<close> and \<open>-1.5\<close> are the negated
  literals, which are exact.
\<close>

definition realStart :: "'f arith \<Rightarrow> 'f \<Rightarrow> 'f \<Rightarrow> 'f" where
  "realStart A zoom offsetX = f_sub A (f_mul A (f_lit A (- 2)) zoom) offsetX"

definition realEnd :: "'f arith \<Rightarrow> 'f \<Rightarrow> 'f \<Rightarrow> 'f" where
  "realEnd A zoom offsetX = f_sub A (f_mul A (f_lit A 1) zoom) offsetX"

definition imagStart :: "'f arith \<Rightarrow> 'f \<Rightarrow> 'f \<Rightarrow> 'f" where
  "imagStart A zoom offsetY = f_sub A (f_mul A (f_lit A (- (3 / 2))) zoom) offsetY"

definition imagEnd :: "'f arith \<Rightarrow> 'f \<Rightarrow> 'f \<Rightarrow> 'f" where
  "imagEnd A zoom offsetY = f_sub A (f_mul A (f_lit A (3 / 2)) zoom) offsetY"

text \<open>
  Lines 53 to 55: the point \<open>c\<close> of pixel \<open>(x, y)\<close>. \<open>(double)x / (width - 1)\<close> converts
  both operands to \<open>double\<close> and divides there; a zero divisor is no failure of the
  floating-point division.
\<close>

definition pixel_point ::
  "'f arith \<Rightarrow> int \<Rightarrow> int \<Rightarrow> 'f \<Rightarrow> 'f \<Rightarrow> 'f \<Rightarrow> int \<Rightarrow> int \<Rightarrow> 'f cplx" where
  "pixel_point A width height zoom offsetX offsetY x y =
     (f_add A (realStart A zoom offsetX)
        (f_mul A (f_div A (f_int A x) (f_int A (width - 1)))
           (f_sub A (realEnd A zoom offsetX) (realStart A zoom offsetX))),
      f_add A (imagStart A zoom offsetY)
        (f_mul A (f_div A (f_int A y) (f_int A (height - 1)))
           (f_sub A (imagEnd A zoom offsetY) (imagStart A zoom offsetY))))"

section \<open>The renderer\<close>

text \<open>
  Lines 51 to 72 for one pixel: its point, its escape count, its colour.
\<close>

definition pixelColor ::
  "'f arith \<Rightarrow> int \<Rightarrow> int \<Rightarrow> int \<Rightarrow> 'f \<Rightarrow> 'f \<Rightarrow> 'f \<Rightarrow> int \<Rightarrow> int \<Rightarrow> error + RGB" where
  "pixelColor A width height maxIterations zoom offsetX offsetY x y =
     getColor
       (escapeTime A (pixel_point A width height zoom offsetX offsetY x y) maxIterations)
       maxIterations"

text \<open>
  The inner \<open>for\<close> loop over \<open>x\<close> (line 50) with the store \<open>image[y * width + x] = ...\<close>
  of line 72, and the outer loop over \<open>y\<close> (line 49). A failure ends the run.
\<close>

function x_loop ::
  "'f arith \<Rightarrow> int \<Rightarrow> int \<Rightarrow> int \<Rightarrow> 'f \<Rightarrow> 'f \<Rightarrow> 'f \<Rightarrow> int \<Rightarrow> int \<Rightarrow> RGB list
    \<Rightarrow> error + RGB list" where
  "x_loop A width height maxIterations zoom offsetX offsetY y x img =
     (if x < width then
        (case pixelColor A width height maxIterations zoom offsetX offsetY x y of
           Inl e \<Rightarrow> Inl e
         | Inr col \<Rightarrow>
             if \<not> in_int (y * width) then Inl SignedOverflow
             else if \<not> in_int (y * width + x) then Inl SignedOverflow
             else if y * width + x < 0 then Inl OutOfBounds
             else if int (length img) \<le> y * width + x then Inl OutOfBounds
             else x_loop A width height maxIterations zoom offsetX offsetY y (x + 1)
                    (img[nat (y * width + x) := col]))
      else Inr img)"
  by pat_completeness auto
termination
  by (relation "measure (\<lambda>(A, width, height, maxIterations, zoom, offsetX, offsetY, y, x, img).
        nat (width - x))") auto

declare x_loop.simps [simp del]

function y_loop ::
  "'f arith \<Rightarrow> int \<Rightarrow> int \<Rightarrow> int \<Rightarrow> 'f \<Rightarrow> 'f \<Rightarrow> 'f \<Rightarrow> int \<Rightarrow> RGB list
    \<Rightarrow> error + RGB list" where
  "y_loop A width height maxIterations zoom offsetX offsetY y img =
     (if y < height then
        (case x_loop A width height maxIterations zoom offsetX offsetY y 0 img of
           Inl e \<Rightarrow> Inl e
         | Inr img' \<Rightarrow>
             y_loop A width height maxIterations zoom offsetX offsetY (y + 1) img')
      else Inr img)"
  by pat_completeness auto
termination
  by (relation "measure (\<lambda>(A, width, height, maxIterations, zoom, offsetX, offsetY, y, img).
        nat (height - y))") auto

declare y_loop.simps [simp del]

text \<open>
  \<open>generateMandelbrot\<close> up to the point where the image is complete (lines 36 to 74):
  the vector of \<open>width * height\<close> value-initialised (all zero) pixels, then the loops.
  The result is the pixel buffer that the rest of the function writes to the file;
  writing the file is outside the model, and so is running out of memory.
\<close>

definition generateMandelbrot ::
  "'f arith \<Rightarrow> int \<Rightarrow> int \<Rightarrow> int \<Rightarrow> 'f \<Rightarrow> 'f \<Rightarrow> 'f \<Rightarrow> error + RGB list" where
  "generateMandelbrot A width height maxIterations zoom offsetX offsetY =
     (if \<not> in_int (width * height) then Inl SignedOverflow
      else if width * height < 0 then Inl LengthError
      else y_loop A width height maxIterations zoom offsetX offsetY 0
             (replicate (nat (width * height)) \<lparr>r = 0, g = 0, b = 0\<rparr>))"

section \<open>Properties of the colour mapper\<close>

lemma getColor_same: "getColor n n = Inr black"
  by (simp add: getColor_def black_def)

lemma colorValue_bounds:
  fixes iterations maxIterations :: int
  assumes "0 \<le> iterations" "iterations < maxIterations"
  shows "0 \<le> (iterations * 255) div maxIterations" "(iterations * 255) div maxIterations < 255"
proof -
  show "0 \<le> (iterations * 255) div maxIterations"
    using assms by (simp add: pos_imp_zdiv_nonneg_iff)
  have pos: "0 < maxIterations" using assms by simp
  have "maxIterations * ((iterations * 255) div maxIterations)
      = iterations * 255 - (iterations * 255) mod maxIterations"
    by (simp add: minus_mod_eq_mult_div)
  moreover have "0 \<le> (iterations * 255) mod maxIterations"
    using pos by simp
  ultimately have "maxIterations * ((iterations * 255) div maxIterations) < maxIterations * 255"
    using assms by linarith
  then show "(iterations * 255) div maxIterations < 255"
    using pos by (simp add: mult_less_cancel_left_pos)
qed

lemma getColor_below:
  assumes "0 \<le> iterations" "iterations < maxIterations" "iterations * 255 \<le> INT_MAX"
  shows "getColor iterations maxIterations =
     Inr \<lparr>r = word_of_int ((iterations * 255) div maxIterations mod 255),
          g = word_of_int ((iterations * 255) div maxIterations * 2 mod 255),
          b = word_of_int ((iterations * 255) div maxIterations * 4 mod 255)\<rparr>"
proof -
  define cv where "cv = (iterations * 255) div maxIterations"
  have cv: "0 \<le> cv" "cv < 255"
    using colorValue_bounds [OF assms(1,2)] by (simp_all add: cv_def)
  have sd: "(iterations * 255) sdiv maxIterations = cv"
    using assms by (simp add: signed_divide_int_def cv_def sgn_if)
  have i1: "in_int (iterations * 255)"
    using assms by (simp add: in_int_def INT_MIN_def INT_MAX_def)
  have i2: "in_int cv" "in_int (cv * 2)" "in_int (cv * 4)"
    using cv by (simp_all add: in_int_def INT_MIN_def INT_MAX_def)
  have sm: "cv smod 255 = cv mod 255" "cv * 2 smod 255 = cv * 2 mod 255"
    "cv * 4 smod 255 = cv * 4 mod 255"
    using cv by (simp_all add: smod_mod_positive)
  have ne: "iterations \<noteq> maxIterations" "maxIterations \<noteq> 0" using assms by simp_all
  show ?thesis
    unfolding getColor_def Let_def sd cv_def [symmetric]
    using ne i1 i2 sm by simp
qed

lemma getColor_ok:
  assumes "(0 \<le> iterations \<and> iterations \<le> maxIterations \<and> maxIterations \<le> 8421504) \<or> iterations = 0"
  shows "\<exists>col. getColor iterations maxIterations = Inr col"
proof (cases "iterations = maxIterations")
  case True
  then show ?thesis by (simp add: getColor_def)
next
  case ne: False
  show ?thesis
  proof (cases "iterations = 0")
    case True
    then show ?thesis using ne
      by (simp add: getColor_def in_int_def INT_MIN_def INT_MAX_def)
  next
    case False
    then have "0 \<le> iterations" "iterations < maxIterations" "iterations * 255 \<le> INT_MAX"
      using assms ne by (simp_all add: INT_MAX_def)
    then show ?thesis using getColor_below by blast
  qed
qed

lemma getColor_no_div_by_zero:
  "getColor iterations maxIterations = Inl DivisionByZero \<Longrightarrow> maxIterations = 0 \<and> iterations \<noteq> 0"
  by (auto simp: getColor_def Let_def split: if_splits)

lemma uint_channel:
  fixes v :: int
  assumes "0 \<le> v" "v < 255"
  shows "uint (word_of_int v :: 8 word) = v"
  using assms by (simp add: uint_word_of_int)

text \<open>
  Beyond \<open>iterations = 8421504\<close> the product \<open>iterations * 255\<close> leaves the range of
  \<open>int\<close>.
\<close>

lemma getColor_overflow: "getColor 10000000 20000000 = Inl SignedOverflow"
  by (simp add: getColor_def in_int_def INT_MIN_def INT_MAX_def)

section \<open>Properties of the escape loop\<close>

text \<open>One turn of the loop, and its exit.\<close>

lemma escape_loop_stop:
  "\<not> (bounded A z \<and> iterations < maxIterations) \<Longrightarrow>
   escape_loop A c maxIterations z iterations = iterations"
  by (subst escape_loop.simps) auto

lemma escape_loop_go:
  "bounded A z \<Longrightarrow> iterations < maxIterations \<Longrightarrow>
   escape_loop A c maxIterations z iterations =
   escape_loop A c maxIterations (mandel_step A c z) (iterations + 1)"
  by (subst escape_loop.simps) auto

lemma escape_loop_lower: "iterations \<le> escape_loop A c maxIterations z iterations"
proof (induction A c maxIterations z iterations rule: escape_loop.induct)
  case (1 A c maxIterations z iterations)
  show ?case
  proof (cases "bounded A z \<and> iterations < maxIterations")
    case True
    then have "iterations + 1 \<le> escape_loop A c maxIterations (mandel_step A c z) (iterations + 1)"
      using 1 by simp
    then show ?thesis using True by (simp add: escape_loop_go)
  next
    case False
    then show ?thesis by (simp add: escape_loop_stop)
  qed
qed

lemma escape_loop_upper:
  "iterations \<le> maxIterations \<Longrightarrow> escape_loop A c maxIterations z iterations \<le> maxIterations"
proof (induction A c maxIterations z iterations rule: escape_loop.induct)
  case (1 A c maxIterations z iterations)
  show ?case
  proof (cases "bounded A z \<and> iterations < maxIterations")
    case True
    then have "escape_loop A c maxIterations (mandel_step A c z) (iterations + 1) \<le> maxIterations"
      using 1 by simp
    then show ?thesis using True by (simp add: escape_loop_go)
  next
    case False
    then show ?thesis using 1(2) by (simp add: escape_loop_stop)
  qed
qed

lemma escape_loop_done:
  "maxIterations \<le> iterations \<Longrightarrow> escape_loop A c maxIterations z iterations = iterations"
  by (subst escape_loop.simps) simp

lemma escape_loop_mono:
  "N1 \<le> N2 \<Longrightarrow> escape_loop A c N1 z iterations \<le> escape_loop A c N2 z iterations"
proof (induction A c N1 z iterations rule: escape_loop.induct)
  case (1 A c N1 z iterations)
  show ?case
  proof (cases "bounded A z \<and> iterations < N1")
    case True
    then have "escape_loop A c N1 (mandel_step A c z) (iterations + 1)
        \<le> escape_loop A c N2 (mandel_step A c z) (iterations + 1)"
      using 1 by simp
    moreover have "escape_loop A c N1 z iterations = escape_loop A c N1 (mandel_step A c z) (iterations + 1)"
      using True by (simp add: escape_loop_go)
    moreover have "escape_loop A c N2 z iterations = escape_loop A c N2 (mandel_step A c z) (iterations + 1)"
      using True 1(2) by (simp add: escape_loop_go)
    ultimately show ?thesis by simp
  next
    case False
    then have "escape_loop A c N1 z iterations = iterations"
      by (rule escape_loop_stop)
    then show ?thesis using escape_loop_lower [of iterations A c N2 z] by simp
  qed
qed

text \<open>
  The loop returns the cap exactly when the guard \<open>std::norm(z) < 4.0\<close> holds at each
  of the states it tests before a turn; otherwise it returns the index of the first
  state where the guard fails.
\<close>

lemma escape_loop_full:
  "iterations \<le> maxIterations \<Longrightarrow>
   (escape_loop A c maxIterations z iterations = maxIterations) =
   (\<forall>k < nat (maxIterations - iterations). bounded A ((mandel_step A c ^^ k) z))"
proof (induction A c maxIterations z iterations rule: escape_loop.induct)
  case (1 A c maxIterations z iterations)
  show ?case
  proof (cases "iterations < maxIterations")
    case False
    then show ?thesis using 1(2) by (subst escape_loop.simps) simp
  next
    case lt: True
    show ?thesis
    proof (cases "bounded A z")
      case False
      then have "escape_loop A c maxIterations z iterations = iterations"
        by (subst escape_loop.simps) simp
      moreover have "\<not> (\<forall>k < nat (maxIterations - iterations). bounded A ((mandel_step A c ^^ k) z))"
        using False lt by (auto intro!: exI [of _ 0])
      ultimately show ?thesis using lt by simp
    next
      case True
      have unf: "escape_loop A c maxIterations z iterations
          = escape_loop A c maxIterations (mandel_step A c z) (iterations + 1)"
        using True lt by (subst escape_loop.simps) simp
      have ih: "(escape_loop A c maxIterations (mandel_step A c z) (iterations + 1) = maxIterations) =
         (\<forall>k < nat (maxIterations - (iterations + 1)). bounded A ((mandel_step A c ^^ k) (mandel_step A c z)))"
        using 1(1) True lt by simp
      have n: "nat (maxIterations - iterations) = Suc (nat (maxIterations - (iterations + 1)))"
        using lt by simp
      have "(\<forall>k < Suc (nat (maxIterations - (iterations + 1))). bounded A ((mandel_step A c ^^ k) z))
         = (\<forall>k < nat (maxIterations - (iterations + 1)). bounded A ((mandel_step A c ^^ k) (mandel_step A c z)))"
        using True by (auto simp: less_Suc_eq_0_disj funpow_swap1)
      then show ?thesis using unf ih n by simp
    qed
  qed
qed

lemma orbit_funpow: "orbit A c k = (mandel_step A c ^^ k) (f_lit A 0, f_lit A 0)"
  by (induction k) simp_all

lemma escape_loop_prefix:
  "\<forall>k < nat (escape_loop A c maxIterations z iterations - iterations).
     bounded A ((mandel_step A c ^^ k) z)"
proof (induction A c maxIterations z iterations rule: escape_loop.induct)
  case (1 A c maxIterations z iterations)
  show ?case
  proof (cases "bounded A z \<and> iterations < maxIterations")
    case False
    then show ?thesis by (simp add: escape_loop_stop)
  next
    case True
    let ?n = "escape_loop A c maxIterations (mandel_step A c z) (iterations + 1)"
    have unf: "escape_loop A c maxIterations z iterations = ?n"
      using True by (simp add: escape_loop_go)
    have ih: "\<forall>k < nat (?n - (iterations + 1)). bounded A ((mandel_step A c ^^ k) (mandel_step A c z))"
      using 1 True by simp
    have low: "iterations + 1 \<le> ?n" by (rule escape_loop_lower)
    have n: "nat (?n - iterations) = Suc (nat (?n - (iterations + 1)))"
      using low by simp
    show ?thesis
      unfolding unf n using True ih by (auto simp: less_Suc_eq_0_disj funpow_swap1)
  qed
qed

lemma escape_loop_exit:
  "escape_loop A c maxIterations z iterations < maxIterations \<Longrightarrow>
   \<not> bounded A ((mandel_step A c ^^ nat (escape_loop A c maxIterations z iterations - iterations)) z)"
proof (induction A c maxIterations z iterations rule: escape_loop.induct)
  case (1 A c maxIterations z iterations)
  show ?case
  proof (cases "bounded A z \<and> iterations < maxIterations")
    case False
    then have e: "escape_loop A c maxIterations z iterations = iterations"
      by (rule escape_loop_stop)
    then have "iterations < maxIterations" using "1.prems" by simp
    then show ?thesis using False e by simp
  next
    case True
    let ?n = "escape_loop A c maxIterations (mandel_step A c z) (iterations + 1)"
    have unf: "escape_loop A c maxIterations z iterations = ?n"
      using True by (simp add: escape_loop_go)
    have ih: "\<not> bounded A ((mandel_step A c ^^ nat (?n - (iterations + 1))) (mandel_step A c z))"
      using "1.IH" True "1.prems" unf by simp
    have low: "iterations + 1 \<le> ?n" by (rule escape_loop_lower)
    have n: "nat (?n - iterations) = Suc (nat (?n - (iterations + 1)))"
      using low by simp
    show ?thesis
      unfolding unf n using ih by (simp add: funpow_swap1)
  qed
qed

lemma escapeTime_range:
  "0 \<le> escapeTime A c maxIterations \<and> escapeTime A c maxIterations \<le> max 0 maxIterations"
proof (cases "0 \<le> maxIterations")
  case True
  then show ?thesis
    using escape_loop_lower [of 0 A c maxIterations "(f_lit A 0, f_lit A 0)"]
      escape_loop_upper [of 0 maxIterations A c "(f_lit A 0, f_lit A 0)"]
    by (simp add: escapeTime_def)
next
  case False
  then show ?thesis by (simp add: escapeTime_def escape_loop_done)
qed

lemma escapeTime_orbit_full:
  assumes "0 \<le> maxIterations"
  shows "(escapeTime A c maxIterations = maxIterations) =
     (\<forall>k < nat maxIterations. bounded A (orbit A c k))"
  using escape_loop_full [of 0 maxIterations A c "(f_lit A 0, f_lit A 0)"] assms
  by (simp add: escapeTime_def orbit_funpow)

lemma one_turn_then_exit:
  assumes "bounded A (f_lit A 0, f_lit A 0)"
    and "mandel_step A c (f_lit A 0, f_lit A 0) = c"
    and "\<not> bounded A c"
    and "1 \<le> maxIterations"
  shows "escapeTime A c maxIterations = 1"
proof -
  have "escapeTime A c maxIterations = escape_loop A c maxIterations c 1"
    using assms(1,2,4) by (simp add: escapeTime_def escape_loop_go)
  also have "\<dots> = 1" using assms(3) by (simp add: escape_loop_stop)
  finally show ?thesis .
qed

section \<open>Properties of the renderer\<close>

lemma pixelColor_ok:
  assumes "maxIterations \<le> 8421504"
  shows "\<exists>col. pixelColor A width height maxIterations zoom offsetX offsetY x y = Inr col"
proof -
  let ?n = "escapeTime A (pixel_point A width height zoom offsetX offsetY x y) maxIterations"
  have "0 \<le> ?n \<and> ?n \<le> max 0 maxIterations" by (rule escapeTime_range)
  then have "(0 \<le> ?n \<and> ?n \<le> maxIterations \<and> maxIterations \<le> 8421504) \<or> ?n = 0"
    using assms by auto
  then show ?thesis unfolding pixelColor_def by (rule getColor_ok)
qed

lemma pixelColor_no_div_by_zero:
  "pixelColor A width height maxIterations zoom offsetX offsetY x y \<noteq> Inl DivisionByZero"
proof
  assume "pixelColor A width height maxIterations zoom offsetX offsetY x y = Inl DivisionByZero"
  then have "maxIterations = 0 \<and>
      escapeTime A (pixel_point A width height zoom offsetX offsetY x y) maxIterations \<noteq> 0"
    unfolding pixelColor_def by (rule getColor_no_div_by_zero)
  then show False by (auto simp: escapeTime_def escape_loop_done)
qed

lemma pixelColor_nonpositive_cap:
  assumes "maxIterations \<le> 0"
  shows "pixelColor A width height maxIterations zoom offsetX offsetY x y = Inr black"
proof -
  have "escapeTime A (pixel_point A width height zoom offsetX offsetY x y) maxIterations = 0"
    using assms by (simp add: escapeTime_def escape_loop_done)
  then show ?thesis
    by (simp add: pixelColor_def getColor_def black_def in_int_def INT_MIN_def INT_MAX_def)
qed

text \<open>
  Inside the loops the index \<open>y * width + x\<close> is within the vector, and every
  index of the vector is the index of one pixel.
\<close>

lemma index_in_range:
  fixes x y width height :: int
  assumes "0 \<le> x" "x < width" "0 \<le> y" "y < height"
  shows "0 \<le> y * width" "0 \<le> y * width + x" "y * width + x < width * height"
proof -
  show 0: "0 \<le> y * width" using assms by simp
  then show "0 \<le> y * width + x" using assms by simp
  have "y + 1 \<le> height" using assms by simp
  then have "(y + 1) * width \<le> height * width"
    using assms by (intro mult_right_mono) simp_all
  then show "y * width + x < width * height"
    using assms by (simp add: algebra_simps)
qed

lemma grid_covers:
  fixes width height :: int
  assumes "0 < width" "int i < width * height"
  shows "\<exists>x y. 0 \<le> x \<and> x < width \<and> 0 \<le> y \<and> y < height \<and> i = nat (y * width + x)"
proof (intro exI conjI)
  let ?x = "int i mod width" and ?y = "int i div width"
  show "0 \<le> ?x" "?x < width" using assms by simp_all
  show y0: "0 \<le> ?y" using assms by (simp add: pos_imp_zdiv_nonneg_iff)
  have eq: "?y * width + ?x = int i" by simp
  show "?y < height"
  proof (rule ccontr)
    assume "\<not> ?y < height"
    then have "height * width \<le> ?y * width"
      using assms by (intro mult_right_mono) simp_all
    moreover have "0 \<le> ?x" using assms by simp
    ultimately have "height * width \<le> int i" using eq by linarith
    then show False using assms by (simp add: mult.commute)
  qed
  show "i = nat (?y * width + ?x)" using eq by simp
qed

text \<open>
  The inner loop writes the colours of the rest of row \<open>y\<close> and changes nothing else;
  the outer loop does so for the rows from \<open>y\<close> on.
\<close>

lemma x_loop_stop:
  "\<not> x < width \<Longrightarrow> x_loop A width height maxIterations zoom offsetX offsetY y x img = Inr img"
  by (subst x_loop.simps) simp

lemma x_loop_go:
  assumes "x < width"
    and "pixelColor A width height maxIterations zoom offsetX offsetY x y = Inr col"
    and "in_int (y * width)" "in_int (y * width + x)"
    and "0 \<le> y * width + x" "y * width + x < int (length img)"
  shows "x_loop A width height maxIterations zoom offsetX offsetY y x img =
     x_loop A width height maxIterations zoom offsetX offsetY y (x + 1)
       (img[nat (y * width + x) := col])"
  using assms by (subst x_loop.simps) simp

lemma x_loop_spec:
  assumes "\<forall>x'. x \<le> x' \<and> x' < width \<longrightarrow>
      (\<exists>col. pixelColor A width height maxIterations zoom offsetX offsetY x' y = Inr col)"
    and "0 \<le> y" "y < height" "0 \<le> x"
    and "int (length img) = width * height" "in_int (width * height)"
  shows "\<exists>img'. x_loop A width height maxIterations zoom offsetX offsetY y x img = Inr img' \<and>
      length img' = length img \<and>
      (\<forall>x'. x \<le> x' \<and> x' < width \<longrightarrow>
         Inr (img' ! nat (y * width + x')) =
           pixelColor A width height maxIterations zoom offsetX offsetY x' y) \<and>
      (\<forall>i. i < length img \<and> (int i < y * width + x \<or> y * width + width \<le> int i) \<longrightarrow>
         img' ! i = img ! i)"
  using assms
proof (induction A width height maxIterations zoom offsetX offsetY y x img rule: x_loop.induct)
  case (1 A width height maxIterations zoom offsetX offsetY y x img)
  show ?case
  proof (cases "x < width")
    case False
    then show ?thesis by (auto simp: x_loop_stop)
  next
    case True
    obtain col where col: "pixelColor A width height maxIterations zoom offsetX offsetY x y = Inr col"
      using "1.prems"(1) True by auto
    have idx: "0 \<le> y * width" "0 \<le> y * width + x" "y * width + x < width * height"
      using index_in_range [of x width y height] True "1.prems" by simp_all
    have ii: "in_int (y * width)" "in_int (y * width + x)"
      using idx "1.prems"(4,6) by (auto simp: in_int_def INT_MIN_def)
    let ?img = "img[nat (y * width + x) := col]"
    have go: "x_loop A width height maxIterations zoom offsetX offsetY y x img =
        x_loop A width height maxIterations zoom offsetX offsetY y (x + 1) ?img"
      using True col ii idx "1.prems"(5) by (intro x_loop_go) simp_all
    have "\<exists>img'. x_loop A width height maxIterations zoom offsetX offsetY y (x + 1) ?img = Inr img' \<and>
      length img' = length ?img \<and>
      (\<forall>x'. x + 1 \<le> x' \<and> x' < width \<longrightarrow>
         Inr (img' ! nat (y * width + x')) =
           pixelColor A width height maxIterations zoom offsetX offsetY x' y) \<and>
      (\<forall>i. i < length ?img \<and> (int i < y * width + (x + 1) \<or> y * width + width \<le> int i) \<longrightarrow>
         img' ! i = ?img ! i)"
    proof (rule "1.IH" [OF True col])
      show "\<not> \<not> in_int (y * width)" using ii by simp
      show "\<not> \<not> in_int (y * width + x)" using ii by simp
      show "\<not> y * width + x < 0" using idx by simp
      show "\<not> int (length img) \<le> y * width + x" using idx "1.prems"(5) by simp
      show "\<forall>x'. x + 1 \<le> x' \<and> x' < width \<longrightarrow>
        (\<exists>col. pixelColor A width height maxIterations zoom offsetX offsetY x' y = Inr col)"
        using "1.prems"(1) by auto
      show "0 \<le> y" "y < height" "0 \<le> x + 1" using "1.prems" by simp_all
      show "int (length ?img) = width * height" using "1.prems"(5) by simp
      show "in_int (width * height)" by fact
    qed
    then obtain img' where r: "x_loop A width height maxIterations zoom offsetX offsetY y (x + 1) ?img = Inr img'"
      and len: "length img' = length img"
      and new: "\<forall>x'. x + 1 \<le> x' \<and> x' < width \<longrightarrow>
         Inr (img' ! nat (y * width + x')) =
           pixelColor A width height maxIterations zoom offsetX offsetY x' y"
      and old: "\<forall>i. i < length img \<and> (int i < y * width + (x + 1) \<or> y * width + width \<le> int i) \<longrightarrow>
         img' ! i = ?img ! i"
      by auto
    have here: "img' ! nat (y * width + x) = col"
    proof -
      have "nat (y * width + x) < length img" using idx "1.prems"(5) by linarith
      moreover have "int (nat (y * width + x)) < y * width + (x + 1)" using idx by simp
      ultimately have "img' ! nat (y * width + x) = ?img ! nat (y * width + x)"
        using old by blast
      then show ?thesis using \<open>nat (y * width + x) < length img\<close> by simp
    qed
    have all_new: "\<forall>x'. x \<le> x' \<and> x' < width \<longrightarrow>
         Inr (img' ! nat (y * width + x')) =
           pixelColor A width height maxIterations zoom offsetX offsetY x' y"
    proof (intro allI impI)
      fix x' assume x': "x \<le> x' \<and> x' < width"
      show "Inr (img' ! nat (y * width + x')) =
           pixelColor A width height maxIterations zoom offsetX offsetY x' y"
      proof (cases "x' = x")
        case True
        then show ?thesis using here col by simp
      next
        case False
        then show ?thesis using new x' by simp
      qed
    qed
    have all_old: "\<forall>i. i < length img \<and> (int i < y * width + x \<or> y * width + width \<le> int i) \<longrightarrow>
         img' ! i = img ! i"
    proof (intro allI impI)
      fix i assume i: "i < length img \<and> (int i < y * width + x \<or> y * width + width \<le> int i)"
      then have "img' ! i = ?img ! i" using old True by auto
      moreover have "i \<noteq> nat (y * width + x)"
      proof
        assume "i = nat (y * width + x)"
        then have "int i = y * width + x" using idx by simp
        then show False using i True by simp
      qed
      ultimately show "img' ! i = img ! i" by simp
    qed
    show ?thesis using go r len all_new all_old by simp
  qed
qed

lemma y_loop_stop:
  "\<not> y < height \<Longrightarrow> y_loop A width height maxIterations zoom offsetX offsetY y img = Inr img"
  by (subst y_loop.simps) simp

lemma y_loop_go:
  assumes "y < height"
    and "x_loop A width height maxIterations zoom offsetX offsetY y 0 img = Inr img1"
  shows "y_loop A width height maxIterations zoom offsetX offsetY y img =
     y_loop A width height maxIterations zoom offsetX offsetY (y + 1) img1"
  using assms by (subst y_loop.simps) simp

lemma y_loop_eval_go:
  assumes "y < height"
    and "x_loop A width height maxIterations zoom offsetX offsetY y 0 img = Inr img1"
    and "y_loop A width height maxIterations zoom offsetX offsetY (y + 1) img1 = res"
  shows "y_loop A width height maxIterations zoom offsetX offsetY y img = res"
  unfolding y_loop_go [OF assms(1,2)] by (rule assms(3))

lemma y_loop_spec:
  assumes "\<forall>x' y'. 0 \<le> x' \<and> x' < width \<and> y \<le> y' \<and> y' < height \<longrightarrow>
      (\<exists>col. pixelColor A width height maxIterations zoom offsetX offsetY x' y' = Inr col)"
    and "0 \<le> y"
    and "int (length img) = width * height" "in_int (width * height)"
  shows "\<exists>img'. y_loop A width height maxIterations zoom offsetX offsetY y img = Inr img' \<and>
      length img' = length img \<and>
      (\<forall>x' y'. 0 \<le> x' \<and> x' < width \<and> y \<le> y' \<and> y' < height \<longrightarrow>
         Inr (img' ! nat (y' * width + x')) =
           pixelColor A width height maxIterations zoom offsetX offsetY x' y') \<and>
      (\<forall>i. i < length img \<and> int i < y * width \<longrightarrow> img' ! i = img ! i)"
  using assms
proof (induction A width height maxIterations zoom offsetX offsetY y img rule: y_loop.induct)
  case (1 A width height maxIterations zoom offsetX offsetY y img)
  show ?case
  proof (cases "y < height")
    case False
    then show ?thesis by (auto simp: y_loop_stop)
  next
    case True
    have "0 \<le> width * height" using "1.prems"(3) [symmetric] by simp
    then have w: "0 \<le> width" using True "1.prems"(2) by (simp add: zero_le_mult_iff)
    have "\<exists>img1. x_loop A width height maxIterations zoom offsetX offsetY y 0 img = Inr img1 \<and>
      length img1 = length img \<and>
      (\<forall>x'. 0 \<le> x' \<and> x' < width \<longrightarrow>
         Inr (img1 ! nat (y * width + x')) =
           pixelColor A width height maxIterations zoom offsetX offsetY x' y) \<and>
      (\<forall>i. i < length img \<and> (int i < y * width + 0 \<or> y * width + width \<le> int i) \<longrightarrow>
         img1 ! i = img ! i)"
      using "1.prems" True by (intro x_loop_spec) auto
    then obtain img1 where
      r1: "x_loop A width height maxIterations zoom offsetX offsetY y 0 img = Inr img1"
      and len1: "length img1 = length img"
      and new1: "\<forall>x'. 0 \<le> x' \<and> x' < width \<longrightarrow>
         Inr (img1 ! nat (y * width + x')) =
           pixelColor A width height maxIterations zoom offsetX offsetY x' y"
      and old1: "\<forall>i. i < length img \<and> (int i < y * width \<or> y * width + width \<le> int i) \<longrightarrow>
         img1 ! i = img ! i"
      by auto
    have "\<exists>img'. y_loop A width height maxIterations zoom offsetX offsetY (y + 1) img1 = Inr img' \<and>
      length img' = length img1 \<and>
      (\<forall>x' y'. 0 \<le> x' \<and> x' < width \<and> y + 1 \<le> y' \<and> y' < height \<longrightarrow>
         Inr (img' ! nat (y' * width + x')) =
           pixelColor A width height maxIterations zoom offsetX offsetY x' y') \<and>
      (\<forall>i. i < length img1 \<and> int i < (y + 1) * width \<longrightarrow> img' ! i = img1 ! i)"
    proof (rule "1.IH" [OF True r1])
      show "\<forall>x' y'. 0 \<le> x' \<and> x' < width \<and> y + 1 \<le> y' \<and> y' < height \<longrightarrow>
        (\<exists>col. pixelColor A width height maxIterations zoom offsetX offsetY x' y' = Inr col)"
        using "1.prems"(1) by auto
      show "0 \<le> y + 1" using "1.prems"(2) by simp
      show "int (length img1) = width * height" using len1 "1.prems"(3) by simp
      show "in_int (width * height)" by fact
    qed
    then obtain img' where
      r: "y_loop A width height maxIterations zoom offsetX offsetY (y + 1) img1 = Inr img'"
      and len: "length img' = length img"
      and new: "\<forall>x' y'. 0 \<le> x' \<and> x' < width \<and> y + 1 \<le> y' \<and> y' < height \<longrightarrow>
         Inr (img' ! nat (y' * width + x')) =
           pixelColor A width height maxIterations zoom offsetX offsetY x' y'"
      and old: "\<forall>i. i < length img \<and> int i < (y + 1) * width \<longrightarrow> img' ! i = img1 ! i"
      using len1 by auto
    have all_new: "\<forall>x' y'. 0 \<le> x' \<and> x' < width \<and> y \<le> y' \<and> y' < height \<longrightarrow>
         Inr (img' ! nat (y' * width + x')) =
           pixelColor A width height maxIterations zoom offsetX offsetY x' y'"
    proof (intro allI impI)
      fix x' y' assume a: "0 \<le> x' \<and> x' < width \<and> y \<le> y' \<and> y' < height"
      show "Inr (img' ! nat (y' * width + x')) =
           pixelColor A width height maxIterations zoom offsetX offsetY x' y'"
      proof (cases "y' = y")
        case False
        then show ?thesis using new a by simp
      next
        case same: True
        have idx: "0 \<le> y * width + x'" "y * width + x' < width * height"
          using index_in_range [of x' width y height] a True "1.prems"(2) by simp_all
        then have "nat (y * width + x') < length img" using "1.prems"(3) by linarith
        moreover have "int (nat (y * width + x')) < (y + 1) * width"
          using idx a by (simp add: algebra_simps)
        ultimately have "img' ! nat (y * width + x') = img1 ! nat (y * width + x')"
          using old by blast
        then show ?thesis using new1 a same by simp
      qed
    qed
    have all_old: "\<forall>i. i < length img \<and> int i < y * width \<longrightarrow> img' ! i = img ! i"
    proof (intro allI impI)
      fix i assume i: "i < length img \<and> int i < y * width"
      then have "int i < (y + 1) * width" using w by (simp add: algebra_simps)
      then have "img' ! i = img1 ! i" using old i by blast
      then show "img' ! i = img ! i" using old1 i by simp
    qed
    show ?thesis using y_loop_go [OF True r1] r len all_new all_old by simp
  qed
qed

lemma generateMandelbrot_spec:
  assumes "\<forall>x y. 0 \<le> x \<and> x < width \<and> 0 \<le> y \<and> y < height \<longrightarrow>
      (\<exists>col. pixelColor A width height maxIterations zoom offsetX offsetY x y = Inr col)"
    and "0 \<le> width * height" "in_int (width * height)"
  shows "\<exists>buf. generateMandelbrot A width height maxIterations zoom offsetX offsetY = Inr buf \<and>
      int (length buf) = width * height \<and>
      (\<forall>x y. 0 \<le> x \<and> x < width \<and> 0 \<le> y \<and> y < height \<longrightarrow>
         Inr (buf ! nat (y * width + x)) =
           pixelColor A width height maxIterations zoom offsetX offsetY x y)"
proof -
  let ?img = "replicate (nat (width * height)) \<lparr>r = 0, g = 0, b = 0\<rparr>"
  have len: "int (length ?img) = width * height" using assms(2) by simp
  have "\<exists>img'. y_loop A width height maxIterations zoom offsetX offsetY 0 ?img = Inr img' \<and>
      length img' = length ?img \<and>
      (\<forall>x' y'. 0 \<le> x' \<and> x' < width \<and> 0 \<le> y' \<and> y' < height \<longrightarrow>
         Inr (img' ! nat (y' * width + x')) =
           pixelColor A width height maxIterations zoom offsetX offsetY x' y') \<and>
      (\<forall>i. i < length ?img \<and> int i < 0 * width \<longrightarrow> img' ! i = ?img ! i)"
    using assms(1) len assms(3) by (intro y_loop_spec) simp_all
  then show ?thesis
    using assms(2,3) len unfolding generateMandelbrot_def by auto
qed

lemma generateMandelbrot_uniform:
  assumes "\<forall>x y. 0 \<le> x \<and> x < width \<and> 0 \<le> y \<and> y < height \<longrightarrow>
      pixelColor A width height maxIterations zoom offsetX offsetY x y = Inr black"
    and "0 \<le> width * height" "in_int (width * height)"
  shows "generateMandelbrot A width height maxIterations zoom offsetX offsetY =
     Inr (replicate (nat (width * height)) black)"
proof (cases "0 < height")
  case False
  then show ?thesis
    using assms(2,3) by (simp add: generateMandelbrot_def y_loop_stop black_def)
next
  case True
  have ok: "\<forall>x y. 0 \<le> x \<and> x < width \<and> 0 \<le> y \<and> y < height \<longrightarrow>
      (\<exists>col. pixelColor A width height maxIterations zoom offsetX offsetY x y = Inr col)"
    using assms(1) by simp
  have "\<exists>buf. generateMandelbrot A width height maxIterations zoom offsetX offsetY = Inr buf \<and>
      int (length buf) = width * height \<and>
      (\<forall>x y. 0 \<le> x \<and> x < width \<and> 0 \<le> y \<and> y < height \<longrightarrow>
         Inr (buf ! nat (y * width + x)) =
           pixelColor A width height maxIterations zoom offsetX offsetY x y)"
    by (rule generateMandelbrot_spec [OF ok assms(2,3)])
  then obtain buf where
    buf: "generateMandelbrot A width height maxIterations zoom offsetX offsetY = Inr buf"
    and len: "int (length buf) = width * height"
    and col: "\<forall>x y. 0 \<le> x \<and> x < width \<and> 0 \<le> y \<and> y < height \<longrightarrow>
         Inr (buf ! nat (y * width + x)) =
           pixelColor A width height maxIterations zoom offsetX offsetY x y"
    by (elim exE conjE)
  have w: "0 \<le> width" using assms(2) True by (simp add: zero_le_mult_iff)
  have "buf ! i = black" if "i < length buf" for i
  proof -
    have i: "int i < width * height" using that len by linarith
    then have "0 < width" using w by (cases "width = 0") simp_all
    then have "\<exists>x y. 0 \<le> x \<and> x < width \<and> 0 \<le> y \<and> y < height \<and> i = nat (y * width + x)"
      using i by (rule grid_covers)
    then obtain x y where xy: "0 \<le> x \<and> x < width \<and> 0 \<le> y \<and> y < height"
      and ix: "i = nat (y * width + x)"
      by (elim exE conjE) simp
    have "Inr (buf ! nat (y * width + x)) =
        pixelColor A width height maxIterations zoom offsetX offsetY x y"
      using col xy by blast
    also have "\<dots> = Inr black" using assms(1) xy by blast
    finally have "Inr (buf ! i) = (Inr black :: error + RGB)" unfolding ix .
    then show ?thesis by simp
  qed
  then have "buf = replicate (length buf) black"
    by (simp add: list_eq_iff_nth_eq)
  moreover have "length buf = nat (width * height)" using len by linarith
  ultimately show ?thesis using buf by simp
qed

lemma x_loop_no_div_by_zero:
  "x_loop A width height maxIterations zoom offsetX offsetY y x img \<noteq> Inl DivisionByZero"
proof (induction A width height maxIterations zoom offsetX offsetY y x img rule: x_loop.induct)
  case (1 A width height maxIterations zoom offsetX offsetY y x img)
  show ?case
    using 1 pixelColor_no_div_by_zero [of A width height maxIterations zoom offsetX offsetY x y]
    by (subst x_loop.simps) (auto split: sum.splits)
qed

lemma y_loop_no_div_by_zero:
  "y_loop A width height maxIterations zoom offsetX offsetY y img \<noteq> Inl DivisionByZero"
proof (induction A width height maxIterations zoom offsetX offsetY y img rule: y_loop.induct)
  case (1 A width height maxIterations zoom offsetX offsetY y img)
  show ?case
    using 1 x_loop_no_div_by_zero [of A width height maxIterations zoom offsetX offsetY y 0 img]
    by (subst y_loop.simps) (auto split: sum.splits)
qed

lemma generateMandelbrot_no_div_by_zero:
  "generateMandelbrot A width height maxIterations zoom offsetX offsetY \<noteq> Inl DivisionByZero"
  by (simp add: generateMandelbrot_def y_loop_no_div_by_zero)

section \<open>Evaluating binary64 arithmetic\<close>

text \<open>
  \<open>floor_log2\<close> meets its specification, so the exponent of a concrete number is
  settled by two comparisons.
\<close>

lemma floor_log2_bounds:
  assumes "0 < a"
  shows "2 powi (floor_log2 a) \<le> a \<and> a < 2 powi (floor_log2 a + 1)"
proof -
  obtain p q where pq: "quotient_of a = (p, q)" by (cases "quotient_of a")
  have q: "0 < q" using pq by (rule quotient_of_denom_pos)
  have a: "a = of_int p / of_int q" using pq by (rule quotient_of_div)
  have p: "0 < p" using assms q unfolding a by (simp add: zero_less_divide_iff)
  define bp where "bp = bitlen p"
  define bq where "bq = bitlen q"
  have bp1: "1 \<le> bp" using p by (simp add: bp_def bitlen_alt_def)
  have bq1: "1 \<le> bq" using q by (simp add: bq_def bitlen_alt_def)
  have "2 ^ nat (bp - 1) \<le> p \<and> p < 2 ^ nat bp"
    unfolding bp_def using p by (rule bitlen_bounds)
  then have "(of_int (2 ^ nat (bp - 1)) :: rat) \<le> of_int p \<and> (of_int p :: rat) < of_int (2 ^ nat bp)"
    unfolding of_int_le_iff of_int_less_iff .
  then have P: "(2::rat) powi (bp - 1) \<le> of_int p" "(of_int p :: rat) < 2 powi bp"
    using bp1 by (simp_all add: power_int_def)
  have "2 ^ nat (bq - 1) \<le> q \<and> q < 2 ^ nat bq"
    unfolding bq_def using q by (rule bitlen_bounds)
  then have "(of_int (2 ^ nat (bq - 1)) :: rat) \<le> of_int q \<and> (of_int q :: rat) < of_int (2 ^ nat bq)"
    unfolding of_int_le_iff of_int_less_iff .
  then have Q: "(2::rat) powi (bq - 1) \<le> of_int q" "(of_int q :: rat) < 2 powi bq"
    using bq1 by (simp_all add: power_int_def)
  have qpos: "(0::rat) < of_int q" using q by simp
  have ppos: "(0::rat) < of_int p" using p by simp
  have pw: "(0::rat) < 2 powi k" for k by (simp add: zero_less_power_int)
  have up: "a < 2 powi (bp - bq + 1)"
  proof -
    have "a * 2 powi (bq - 1) \<le> a * of_int q"
      using Q(1) assms by (intro mult_left_mono) simp_all
    also have "\<dots> = of_int p" using qpos unfolding a by simp
    also have "\<dots> < 2 powi bp" by (rule P(2))
    finally have "a < 2 powi bp / 2 powi (bq - 1)"
      using pw [of "bq - 1"] by (simp add: pos_less_divide_eq)
    also have "\<dots> = 2 powi (bp - (bq - 1))" by (simp add: power_int_diff)
    finally show ?thesis by (simp add: algebra_simps)
  qed
  have lo: "2 powi (bp - bq - 1) \<le> a"
  proof -
    have "2 powi (bp - 1) \<le> (of_int p :: rat)" by (rule P(1))
    also have "\<dots> = a * of_int q" using qpos unfolding a by simp
    also have "\<dots> \<le> a * 2 powi bq"
      using Q(2) assms by (intro mult_left_mono) simp_all
    finally have "2 powi (bp - 1) / 2 powi bq \<le> a"
      using pw [of bq] by (simp add: pos_divide_le_eq)
    moreover have "(2::rat) powi (bp - 1) / 2 powi bq = 2 powi (bp - 1 - bq)"
      by (simp add: power_int_diff)
    ultimately show ?thesis by (simp add: algebra_simps)
  qed
  have e0: "bitlen (fst (quotient_of a)) - bitlen (snd (quotient_of a)) = bp - bq"
    by (simp add: pq bp_def bq_def)
  show ?thesis
  proof (cases "2 powi (bp - bq) \<le> a")
    case True
    then have "floor_log2 a = bp - bq" by (simp add: floor_log2_def e0 Let_def)
    then show ?thesis using True up by simp
  next
    case False
    then have "floor_log2 a = bp - bq - 1" by (simp add: floor_log2_def e0 Let_def)
    then show ?thesis using False lo by simp
  qed
qed

lemma powi2_less_imp:
  assumes "(2::rat) powi m < 2 powi n"
  shows "m < n"
proof (rule ccontr)
  assume "\<not> m < n"
  then have "n \<le> m" by simp
  then have "(2::rat) powi n \<le> 2 powi m" by (intro power_int_increasing) simp_all
  then show False using assms by simp
qed

lemma floor_log2_eqI:
  assumes "2 powi e \<le> a" "a < 2 powi (e + 1)"
  shows "floor_log2 a = e"
proof -
  have "0 < a"
    by (rule less_le_trans [OF _ assms(1)]) (simp add: zero_less_power_int)
  then have b: "2 powi (floor_log2 a) \<le> a" "a < 2 powi (floor_log2 a + 1)"
    using floor_log2_bounds by simp_all
  have "(2::rat) powi e < 2 powi (floor_log2 a + 1)" using assms(1) b(2) by simp
  then have 1: "e < floor_log2 a + 1" by (rule powi2_less_imp)
  have "(2::rat) powi (floor_log2 a) < 2 powi (e + 1)" using assms(2) b(1) by simp
  then have 2: "floor_log2 a < e + 1" by (rule powi2_less_imp)
  show ?thesis using 1 2 by simp
qed

lemma floor_rat_numeral_div:
  "\<lfloor>numeral m / numeral n :: rat\<rfloor> = numeral m div numeral n"
  by (metis floor_divide_of_int_eq of_int_numeral)

text \<open>
  Rounding to an integer is to a nearest one, to the even one at a tie; the rounded
  magnitude is within half a unit in the last place.
\<close>

lemma round_half_even_nearest: "\<bar>of_int (round_half_even t) - t\<bar> \<le> 1 / 2"
proof -
  define n where "n = \<lfloor>t\<rfloor>"
  have lo: "of_int n \<le> t" and hi: "t < of_int n + 1"
    unfolding n_def by linarith+
  show ?thesis
    unfolding round_half_even_def Let_def n_def [symmetric]
    using lo hi by (auto simp: abs_if)
qed

lemma round_half_even_tie:
  assumes "t - of_int \<lfloor>t\<rfloor> = 1 / 2"
  shows "even (round_half_even t)"
  using assms by (simp add: round_half_even_def Let_def)

lemma round_half_even_of_int: "round_half_even (of_int n) = n"
  by (simp add: round_half_even_def)

lemma round_magnitude_error:
  "\<bar>round_magnitude a - a\<bar> \<le> 2 powi (max (floor_log2 a) (- 1022) - 53)"
proof -
  define u :: rat where "u = 2 powi (max (floor_log2 a) (- 1022) - 52)"
  have u: "0 < u" by (simp add: u_def zero_less_power_int)
  have "\<bar>of_int (round_half_even (a / u)) - a / u\<bar> \<le> 1 / 2"
    by (rule round_half_even_nearest)
  then have "\<bar>of_int (round_half_even (a / u)) - a / u\<bar> * u \<le> 1 / 2 * u"
    using u by (intro mult_right_mono) simp_all
  moreover have "\<bar>of_int (round_half_even (a / u)) - a / u\<bar> * u
      = \<bar>of_int (round_half_even (a / u)) * u - a\<bar>"
    using u by (simp add: abs_mult [symmetric] algebra_simps abs_mult_pos')
  moreover have "1 / 2 * u = 2 powi (max (floor_log2 a) (- 1022) - 53)"
  proof -
    have "(2::rat) powi (max (floor_log2 a) (- 1022) - 52)
        = 2 powi (max (floor_log2 a) (- 1022) - 53 + 1)" by simp
    also have "\<dots> = 2 powi (max (floor_log2 a) (- 1022) - 53) * 2"
      by (subst power_int_add) simp_all
    finally show ?thesis by (simp add: u_def)
  qed
  ultimately show ?thesis
    by (simp add: round_magnitude_def Let_def u_def [symmetric])
qed

text \<open>
  Rounding returns a binary64 number: rounding it again changes nothing. So every sum,
  difference and literal of the program is a \<open>double\<close>.
\<close>

lemma round_half_even_le:
  assumes "t \<le> of_int k"
  shows "round_half_even t \<le> k"
proof -
  define n where "n = \<lfloor>t\<rfloor>"
  have lo: "of_int n \<le> t" and hi: "t < of_int n + 1"
    unfolding n_def by linarith+
  have nk: "n \<le> k" using assms unfolding n_def by (simp add: floor_le_iff) 
  show ?thesis
  proof (cases "n = k")
    case True
    then have "t = of_int n" using lo assms by simp
    then show ?thesis using True by (simp add: round_half_even_of_int)
  next
    case False
    then have "n + 1 \<le> k" using nk by simp
    moreover have "round_half_even t \<le> n + 1"
      unfolding round_half_even_def Let_def n_def [symmetric] by simp
    ultimately show ?thesis by simp
  qed
qed

lemma round_half_even_nonneg:
  assumes "0 \<le> t"
  shows "0 \<le> round_half_even t"
proof -
  have "0 \<le> \<lfloor>t\<rfloor>" using assms by simp
  then show ?thesis by (simp add: round_half_even_def Let_def)
qed

lemma round_magnitude_idem:
  assumes "0 < a" "round_magnitude a \<noteq> 0"
  shows "round_magnitude (round_magnitude a) = round_magnitude a"
proof -
  define e where "e = max (floor_log2 a) (- 1022)"
  define u :: rat where "u = 2 powi (e - 52)"
  define n where "n = round_half_even (a / u)"
  define m where "m = of_int n * u"
  have m: "round_magnitude a = m"
    by (simp add: round_magnitude_def Let_def e_def u_def n_def m_def)
  have u: "0 < u" by (simp add: u_def zero_less_power_int)
  have e: "- 1022 \<le> e" by (simp add: e_def)
  have pw53: "(2::rat) powi (e + 1) = u * 2 ^ 53"
  proof -
    have "e + 1 = (e - 52) + 53" by simp
    then have "(2::rat) powi (e + 1) = 2 powi ((e - 52) + 53)" by (simp only:)
    also have "\<dots> = 2 powi (e - 52) * 2 powi 53"
      by (rule power_int_add) simp
    finally show ?thesis by (simp add: u_def)
  qed
  have "a < 2 powi (floor_log2 a + 1)" using floor_log2_bounds [OF assms(1)] by simp
  also have "\<dots> \<le> 2 powi (e + 1)"
    by (intro power_int_increasing) (simp_all add: e_def)
  also have "\<dots> = u * 2 ^ 53" by (rule pw53)
  finally have "a / u < 2 ^ 53" using u by (simp add: pos_divide_less_eq mult.commute)
  then have "a / u \<le> of_int (2 ^ 53)" by simp
  then have n_le: "n \<le> 2 ^ 53" unfolding n_def by (rule round_half_even_le)
  have "0 \<le> a / u" using assms(1) u by simp
  then have "0 \<le> n" unfolding n_def by (rule round_half_even_nonneg)
  moreover have "n \<noteq> 0" using assms(2) unfolding m m_def by auto
  ultimately have n_pos: "0 < n" by simp
  have m_pos: "0 < m" using n_pos u by (simp add: m_def)
  define f where "f = max (floor_log2 m) (- 1022)"
  have f_le: "f \<le> e + 1 \<and> (n < 2 ^ 53 \<longrightarrow> f \<le> e) \<and> (n = 2 ^ 53 \<longrightarrow> f = e + 1)"
  proof (cases "n = 2 ^ 53")
    case True
    then have meq: "m = 2 powi (e + 1)"
      unfolding m_def pw53 by simp
    have "floor_log2 m = e + 1"
    proof (rule floor_log2_eqI)
      show "2 powi (e + 1) \<le> m" using meq by simp
      show "m < 2 powi (e + 1 + 1)"
        unfolding meq by (intro power_int_strict_increasing) simp_all
    qed
    then show ?thesis using True e by (simp add: f_def)
  next
    case False
    then have lt: "n < 2 ^ 53" using n_le by simp
    then have "(of_int n :: rat) < of_int (2 ^ 53)" unfolding of_int_less_iff .
    then have "of_int n * u < 2 ^ 53 * u" using u by simp
    also have "2 ^ 53 * u = 2 powi (e + 1)"
      unfolding pw53 by simp
    finally have "m < 2 powi (e + 1)" by (simp add: m_def)
    moreover have "2 powi (floor_log2 m) \<le> m" using floor_log2_bounds [OF m_pos] by simp
    ultimately have "(2::rat) powi (floor_log2 m) < 2 powi (e + 1)" by simp
    then have "floor_log2 m < e + 1" by (rule powi2_less_imp)
    then show ?thesis using lt e by (simp add: f_def)
  qed
  then have fe: "f \<le> e + 1" by simp
  define K where "K = (if n = 2 ^ 53 then (2 ^ 52 :: int) else n * 2 ^ nat (e - f))"
  have "m / 2 powi (f - 52) = of_int K"
  proof (cases "n = 2 ^ 53")
    case True
    then have f: "f = e + 1" using f_le by simp
    have "m = 2 ^ 53 * 2 powi (e - 52)" using True by (simp add: m_def u_def)
    moreover have "(2::rat) powi (f - 52) = 2 powi (e - 52) * 2"
    proof -
      have "f - 52 = (e - 52) + 1" using f by simp
      then have "(2::rat) powi (f - 52) = 2 powi ((e - 52) + 1)" by (simp only:)
      also have "\<dots> = 2 powi (e - 52) * 2 powi 1"
        by (rule power_int_add) simp
      finally show ?thesis by simp
    qed
    ultimately show ?thesis using True by (simp add: K_def)
  next
    case False
    then have "n < 2 ^ 53" using n_le by simp
    then have f: "f \<le> e" using f_le by simp
    have "(2::rat) powi (e - 52) = 2 powi (f - 52 + (e - f))" by simp
    also have "\<dots> = 2 powi (f - 52) * 2 powi (e - f)"
      by (subst power_int_add) simp_all
    also have "(2::rat) powi (e - f) = 2 ^ nat (e - f)"
      using f by (simp add: power_int_def)
    finally have "u = 2 powi (f - 52) * 2 ^ nat (e - f)" by (simp add: u_def)
    then show ?thesis using False by (simp add: K_def m_def)
  qed
  then have "round_magnitude m = of_int K * 2 powi (f - 52)"
    by (simp add: round_magnitude_def Let_def f_def [symmetric] round_half_even_of_int)
  also have "\<dots> = m / 2 powi (f - 52) * 2 powi (f - 52)"
    using \<open>m / 2 powi (f - 52) = of_int K\<close> by simp
  also have "\<dots> = m" by simp
  finally show ?thesis unfolding m .
qed

lemma is_double_round: "is_double (round_to_double q)"
proof (cases "q = 0")
  case True
  then show ?thesis by (simp add: round_to_double_def)
next
  case False
  define m where "m = round_magnitude \<bar>q\<bar>"
  have a: "0 < \<bar>q\<bar>" using False by simp
  have mn: "0 \<le> m"
    unfolding m_def round_magnitude_def Let_def
    by (intro mult_nonneg_nonneg) (simp_all add: round_half_even_nonneg zero_less_power_int less_imp_le)
  show ?thesis
  proof (cases "2 ^ 1024 \<le> m \<or> m = 0")
    case True
    then show ?thesis using False
      by (auto simp: round_to_double_def Let_def m_def [symmetric])
  next
    case ok: False
    then have m0: "m \<noteq> 0" "\<not> 2 ^ 1024 \<le> m" by simp_all
    have mp: "0 < m" using mn m0 by simp
    have idem: "round_magnitude m = m"
      unfolding m_def using a m0(1) unfolding m_def by (rule round_magnitude_idem)
    have r: "round_to_double q = Finite (if q < 0 then - m else m)"
      using False m0 by (simp add: round_to_double_def Let_def m_def [symmetric])
    have "round_to_double (if q < 0 then - m else m) = Finite (if q < 0 then - m else m)"
      using mp m0 idem by (simp add: round_to_double_def Let_def)
    then show ?thesis unfolding r by simp
  qed
qed

lemma is_double_add: "is_double (d_add x y)"
  by (cases x; cases y) (simp_all add: d_add_def is_double_round)

lemma is_double_sub: "is_double (d_sub x y)"
  by (simp add: d_sub_def is_double_add)

lemma is_double_pixel_point:
  "is_double (fst (pixel_point ieee_arith width height zoom offsetX offsetY x y))"
  "is_double (snd (pixel_point ieee_arith width height zoom offsetX offsetY x y))"
  by (simp_all add: pixel_point_def ieee_arith_def is_double_add)

lemma is_double_bounds:
  "is_double (realStart ieee_arith zoom offsetX)"
  "is_double (realEnd ieee_arith zoom offsetX)"
  "is_double (imagStart ieee_arith zoom offsetY)"
  "is_double (imagEnd ieee_arith zoom offsetY)"
  by (simp_all add: realStart_def realEnd_def imagStart_def imagEnd_def ieee_arith_def
      is_double_sub)

lemma round_to_double_eval:
  assumes "2 powi e \<le> \<bar>q\<bar>" "\<bar>q\<bar> < 2 powi (e + 1)"
  shows "round_to_double q =
     (let u = 2 powi (max e (- 1022) - 52);
          m = of_int (round_half_even (\<bar>q\<bar> / u)) * u
      in if 2 ^ 1024 \<le> m then (if q < 0 then NegInf else PosInf)
         else if m = 0 then (if q < 0 then NegZero else Finite 0)
         else Finite (if q < 0 then - m else m))"
proof -
  have e: "floor_log2 \<bar>q\<bar> = e" using assms by (rule floor_log2_eqI)
  have "0 < \<bar>q\<bar>"
    by (rule less_le_trans [OF _ assms(1)]) (simp add: zero_less_power_int)
  then have "q \<noteq> 0" by simp
  then show ?thesis
    by (simp add: round_to_double_def round_magnitude_def e Let_def)
qed

lemmas rnd_simps = round_half_even_def Let_def floor_rat_numeral_div

text \<open>
  The numbers the program's literals and the default window produce are binary64
  numbers; \<open>0.1\<close> is not, and rounds to \<open>3602879701896397 / 2^55\<close>.
\<close>

lemma rnd_0: "round_to_double 0 = Finite 0"
  by (simp add: round_to_double_def)

lemma rnd_1: "round_to_double 1 = Finite 1"
  by (subst round_to_double_eval [where e = 0]) (simp_all add: rnd_simps)

lemma rnd_m1: "round_to_double (- 1) = Finite (- 1)"
  by (subst round_to_double_eval [where e = 0]) (simp_all add: rnd_simps)

lemma rnd_2: "round_to_double 2 = Finite 2"
  by (subst round_to_double_eval [where e = 1]) (simp_all add: rnd_simps)

lemma rnd_m2: "round_to_double (- 2) = Finite (- 2)"
  by (subst round_to_double_eval [where e = 1]) (simp_all add: rnd_simps)

lemma rnd_3: "round_to_double 3 = Finite 3"
  by (subst round_to_double_eval [where e = 1]) (simp_all add: rnd_simps)

lemma rnd_4: "round_to_double 4 = Finite 4"
  by (subst round_to_double_eval [where e = 2]) (simp_all add: rnd_simps)

lemma rnd_3h: "round_to_double (3 / 2) = Finite (3 / 2)"
  by (subst round_to_double_eval [where e = 0]) (simp_all add: rnd_simps)

lemma rnd_m3h: "round_to_double (- (3 / 2)) = Finite (- (3 / 2))"
  by (subst round_to_double_eval [where e = 0]) (simp_all add: rnd_simps)

lemma rnd_tenth: "round_to_double (1 / 10) = Finite (3602879701896397 / 36028797018963968)"
  by (subst round_to_double_eval [where e = "- 4"]) (simp_all add: rnd_simps)

lemma rnd_tenth': "round_to_double (3602879701896397 / 36028797018963968)
    = Finite (3602879701896397 / 36028797018963968)"
  by (subst round_to_double_eval [where e = "- 4"]) (simp_all add: rnd_simps)

lemma rnd_m_fifth: "round_to_double (- (3602879701896397 / 18014398509481984))
    = Finite (- (3602879701896397 / 18014398509481984))"
  by (subst round_to_double_eval [where e = "- 3"]) (simp_all add: rnd_simps)

lemma rnd_three_tenths: "round_to_double (10808639105689191 / 36028797018963968)
    = Finite (1351079888211149 / 4503599627370496)"
  by (subst round_to_double_eval [where e = "- 2"]) (simp_all add: rnd_simps)

lemma rnd_three_tenths': "round_to_double (1351079888211149 / 4503599627370496)
    = Finite (1351079888211149 / 4503599627370496)"
  by (subst round_to_double_eval [where e = "- 2"]) (simp_all add: rnd_simps)

lemma rnd_end: "round_to_double (1801439850948199 / 18014398509481984)
    = Finite (1801439850948199 / 18014398509481984)"
  by (subst round_to_double_eval [where e = "- 4"]) (simp_all add: rnd_simps)

lemmas ieee_ops = ieee_arith_def d_add_def d_sub_def d_mul_def d_div_def d_less_def
  signed_zero_def signed_inf_def

lemma rnd_fifth: "round_to_double (1 / 5) = Finite (3602879701896397 / 18014398509481984)"
  by (subst round_to_double_eval [where e = "- 3"]) (simp_all add: rnd_simps)

text \<open>The sum \<open>0.1 + 0.2\<close> is \<open>0.30000000000000004\<close>.\<close>

lemma tenth_plus_fifth:
  "d_add (round_to_double (1 / 10)) (round_to_double (1 / 5))
     = Finite (1351079888211149 / 4503599627370496)"
  by (simp add: d_add_def rnd_tenth rnd_fifth rnd_three_tenths)

lemmas real_ops = real_arith_def bounded_def cplx_norm_def mandel_step_def cplx_add_def cplx_mul_def

lemma ieee_zero_lit: "f_lit ieee_arith 0 = Finite 0"
  by (simp add: ieee_arith_def rnd_0)

text \<open>Adding to \<open>+0\<close>, multiplying by 1, and the sign of a zero under squaring.\<close>

lemma d_mul_one:
  assumes "is_double x"
  shows "d_mul (Finite 1) x = x"
  using assms by (cases x) (auto simp: d_mul_def signed_zero_def signed_inf_def)

lemma d_add_zero_left:
  assumes "is_double x"
  shows "d_add (Finite 0) x = (if x = NegZero then Finite 0 else x)"
  using assms by (cases x) (auto simp: d_add_def rnd_0)

lemma d_mul_self_zero_sign:
  "d_mul (if x = NegZero then Finite 0 else x) (if x = NegZero then Finite 0 else x) = d_mul x x"
  by (cases x) (simp_all add: d_mul_def signed_zero_def)

subsection \<open>The orbits of 0, -1 and 2\<close>

lemma ieee_bounded_zero: "bounded ieee_arith (Finite 0, Finite 0)"
  by (simp add: bounded_def cplx_norm_def ieee_ops rnd_4 rnd_0)

lemma ieee_bounded_minus_one: "bounded ieee_arith (Finite (- 1), Finite 0)"
  by (simp add: bounded_def cplx_norm_def ieee_ops rnd_4 rnd_1 rnd_0)

lemma ieee_step_zero_zero:
  "mandel_step ieee_arith (Finite 0, Finite 0) (Finite 0, Finite 0) = (Finite 0, Finite 0)"
  by (simp add: mandel_step_def cplx_add_def cplx_mul_def ieee_ops rnd_0)

lemma ieee_step_minus_one_a:
  "mandel_step ieee_arith (Finite (- 1), Finite 0) (Finite 0, Finite 0) = (Finite (- 1), Finite 0)"
  by (simp add: mandel_step_def cplx_add_def cplx_mul_def ieee_ops rnd_m1 rnd_0)

lemma ieee_step_minus_one_b:
  "mandel_step ieee_arith (Finite (- 1), Finite 0) (Finite (- 1), Finite 0) = (Finite 0, Finite 0)"
  by (simp add: mandel_step_def cplx_add_def cplx_mul_def ieee_ops rnd_1 rnd_0)

lemma ieee_orbit_zero: "orbit ieee_arith (Finite 0, Finite 0) k = (Finite 0, Finite 0)"
  by (induction k) (simp_all add: ieee_zero_lit ieee_step_zero_zero)

lemma ieee_orbit_minus_one:
  "orbit ieee_arith (Finite (- 1), Finite 0) k =
     (if even k then (Finite 0, Finite 0) else (Finite (- 1), Finite 0))"
  by (induction k) (simp_all add: ieee_zero_lit ieee_step_minus_one_a ieee_step_minus_one_b)

lemma ieee_escapeTime_zero:
  assumes "0 \<le> N"
  shows "escapeTime ieee_arith (Finite 0, Finite 0) N = N"
  using assms
  by (simp add: escapeTime_orbit_full ieee_orbit_zero ieee_bounded_zero)

lemma ieee_escapeTime_minus_one:
  assumes "0 \<le> N"
  shows "escapeTime ieee_arith (Finite (- 1), Finite 0) N = N"
  using assms
  by (simp add: escapeTime_orbit_full ieee_orbit_minus_one ieee_bounded_zero ieee_bounded_minus_one)

lemma real_bounded_zero: "bounded real_arith (f_lit real_arith 0, f_lit real_arith 0)"
  by (simp add: real_ops)

lemma real_first_step: "mandel_step real_arith c (f_lit real_arith 0, f_lit real_arith 0) = c"
  by (cases c) (simp add: real_ops)

lemma real_orbit_zero: "orbit real_arith (0, 0) k = (0, 0)"
  by (induction k) (simp_all add: real_ops)

lemma real_orbit_minus_one:
  "orbit real_arith (- 1, 0) k = (if even k then (0, 0) else (- 1, 0))"
  by (induction k) (simp_all add: real_ops)

lemma real_escapeTime_zero:
  assumes "0 \<le> N"
  shows "escapeTime real_arith (0, 0) N = N"
  using assms by (simp add: escapeTime_orbit_full real_orbit_zero) (simp add: real_ops)

lemma real_escapeTime_minus_one:
  assumes "0 \<le> N"
  shows "escapeTime real_arith (- 1, 0) N = N"
  using assms by (simp add: escapeTime_orbit_full real_orbit_minus_one) (simp add: real_ops)

lemma ieee_norm_two: "cplx_norm ieee_arith (Finite 2, Finite 0) = Finite 4"
  by (simp add: cplx_norm_def ieee_ops rnd_4)

lemma ieee_not_bounded_two: "\<not> bounded ieee_arith (Finite 2, Finite 0)"
  by (simp add: bounded_def ieee_norm_two) (simp add: ieee_ops rnd_4)

lemma ieee_step_two:
  "mandel_step ieee_arith (Finite 2, Finite 0) (Finite 0, Finite 0) = (Finite 2, Finite 0)"
  by (simp add: mandel_step_def cplx_add_def cplx_mul_def ieee_ops rnd_2 rnd_0)

lemma ieee_escapeTime_two: "escapeTime ieee_arith (Finite 2, Finite 0) 1 = 1"
  by (simp add: escapeTime_def ieee_zero_lit escape_loop_go ieee_bounded_zero ieee_step_two
      escape_loop_stop)

lemma real_escapeTime_one: "escapeTime real_arith (1, 0) 5 = 2"
proof -
  have "escapeTime real_arith (1, 0) 5 = escape_loop real_arith (1, 0) 5 (1, 0) 1"
    by (simp add: escapeTime_def escape_loop_go real_ops)
  also have "\<dots> = escape_loop real_arith (1, 0) 5 (2, 0) 2"
    by (simp add: escape_loop_go real_ops)
  also have "\<dots> = 2"
    by (simp add: escape_loop_stop real_ops)
  finally show ?thesis .
qed

text \<open>
  The first update from \<open>z = 0\<close> stores \<open>c\<close>, up to the sign of a zero component, and
  the guard does not see that sign.
\<close>

lemma ieee_first_iterate:
  assumes "is_double (fst c)" "is_double (snd c)"
  shows "mandel_step ieee_arith c (Finite 0, Finite 0) =
     (if fst c = NegZero then Finite 0 else fst c, if snd c = NegZero then Finite 0 else snd c)"
proof -
  have "cplx_mul ieee_arith (Finite 0, Finite 0) (Finite 0, Finite 0) = (Finite 0, Finite 0)"
    by (simp add: cplx_mul_def ieee_ops rnd_0)
  then show ?thesis
    using assms
    by (simp add: mandel_step_def cplx_add_def d_add_zero_left)
      (simp add: ieee_arith_def d_add_zero_left)
qed

lemma ieee_first_iterate_bounded:
  assumes "is_double (fst c)" "is_double (snd c)"
  shows "bounded ieee_arith (mandel_step ieee_arith c (Finite 0, Finite 0)) = bounded ieee_arith c"
  unfolding ieee_first_iterate [OF assms] bounded_def cplx_norm_def
  by (simp add: ieee_arith_def d_mul_self_zero_sign)

lemma ieee_far_point:
  assumes "is_double (fst c)" "is_double (snd c)" "\<not> bounded ieee_arith c" "1 \<le> maxIterations"
  shows "escapeTime ieee_arith c maxIterations = 1"
proof -
  let ?z = "mandel_step ieee_arith c (Finite 0, Finite 0)"
  have "escapeTime ieee_arith c maxIterations = escape_loop ieee_arith c maxIterations ?z 1"
    using assms(4) by (simp add: escapeTime_def ieee_zero_lit escape_loop_go ieee_bounded_zero)
  also have "\<dots> = 1"
    using assms(3) ieee_first_iterate_bounded [OF assms(1,2)] by (simp add: escape_loop_stop)
  finally show ?thesis .
qed

lemma ieee_norm_neg_zero_three: "\<not> bounded ieee_arith (NegZero, Finite 3)"
proof -
  have "round_to_double 9 = Finite 9"
    by (subst round_to_double_eval [where e = 3]) (simp_all add: rnd_simps)
  then show ?thesis
    by (simp add: bounded_def cplx_norm_def ieee_ops rnd_4)
qed

subsection \<open>The window at zoom 1 and at zoom 0.1\<close>

lemma ieee_default_bounds:
  "realStart ieee_arith (Finite 1) (Finite 0) = Finite (- 2)"
  "realEnd ieee_arith (Finite 1) (Finite 0) = Finite 1"
  "imagStart ieee_arith (Finite 1) (Finite 0) = Finite (- (3 / 2))"
  "imagEnd ieee_arith (Finite 1) (Finite 0) = Finite (3 / 2)"
  by (simp_all add: realStart_def realEnd_def imagStart_def imagEnd_def ieee_ops
      rnd_1 rnd_m2 rnd_3h rnd_m3h)

lemma ieee_ratio_zero:
  assumes "2 \<le> n"
  shows "f_div ieee_arith (f_int ieee_arith 0) (f_int ieee_arith (n - 1)) = Finite 0"
  using assms by (simp add: ieee_ops)

lemma ieee_ratio_one:
  assumes "2 \<le> n"
  shows "f_div ieee_arith (f_int ieee_arith (n - 1)) (f_int ieee_arith (n - 1)) = Finite 1"
  using assms by (simp add: ieee_ops rnd_1)

lemma realEnd_tenth:
  "realEnd ieee_arith (f_lit ieee_arith (1 / 10)) (Finite 0)
    = Finite (3602879701896397 / 36028797018963968)"
  by (simp add: realEnd_def ieee_ops rnd_1 rnd_tenth rnd_tenth')

lemma realStart_tenth:
  "realStart ieee_arith (f_lit ieee_arith (1 / 10)) (Finite 0)
    = Finite (- (3602879701896397 / 18014398509481984))"
  by (simp add: realStart_def ieee_ops rnd_m2 rnd_tenth rnd_m_fifth)

lemma pixel_tenth:
  "fst (pixel_point ieee_arith 2 2 (f_lit ieee_arith (1 / 10)) (Finite 0) (Finite 0) 1 1)
    = Finite (1801439850948199 / 18014398509481984)"
  unfolding pixel_point_def fst_conv realEnd_tenth realStart_tenth
  by (simp add: ieee_ops rnd_1 rnd_three_tenths rnd_three_tenths' rnd_end)

lemma px12: "pixelColor real_arith 4 4 10 1 0 0 1 2 = Inr \<lparr>r = 127, g = 254, b = 253\<rparr>"
  by (simp add: pixelColor_def pixel_point_def realStart_def realEnd_def imagStart_def imagEnd_def
      escapeTime_def escape_loop.simps real_ops getColor_def in_int_def INT_MIN_def INT_MAX_def
      of_rat_divide of_rat_minus)

text \<open>
  The first and the last pixel of an axis in binary64, for any window: the ratio is
  0 or 1, the product is a zero or the span itself.
\<close>

lemma ieee_ratio_zero_times:
  assumes "is_finite d"
  shows "is_zero (d_mul (Finite 0) d) \<and> \<not> is_nan (d_mul (Finite 0) d) \<and>
     (d_mul (Finite 0) d = Finite 0 \<or> d_mul (Finite 0) d = NegZero)"
  using assms by (cases d) (simp_all add: d_mul_def signed_zero_def is_finite_def)

lemma d_add_zero_right:
  assumes "is_double s" "is_finite s" "z = Finite 0 \<or> z = NegZero"
  shows "d_eq (d_add s z) s"
  using assms
  by (cases s) (auto simp: d_add_def d_eq_def is_finite_def rnd_0)

lemma d_add_zero_right_same:
  assumes "is_double s" "is_finite s" "z = Finite 0 \<or> z = NegZero" "s \<noteq> NegZero"
  shows "d_add s z = s"
  using assms
  by (cases s) (auto simp: d_add_def is_finite_def)

lemma ieee_first_general:
  assumes "2 \<le> n" "is_double s" "is_finite s" "is_finite d"
  shows "d_eq (f_add ieee_arith s
       (f_mul ieee_arith (f_div ieee_arith (f_int ieee_arith 0) (f_int ieee_arith (n - 1))) d)) s \<and>
     (s \<noteq> NegZero \<longrightarrow>
       f_add ieee_arith s
         (f_mul ieee_arith (f_div ieee_arith (f_int ieee_arith 0) (f_int ieee_arith (n - 1))) d)
       = s)"
proof -
  have z: "d_mul (Finite 0) d = Finite 0 \<or> d_mul (Finite 0) d = NegZero"
    using ieee_ratio_zero_times [OF assms(4)] by simp
  have "d_eq (d_add s (d_mul (Finite 0) d)) s"
    using assms(2,3) z by (rule d_add_zero_right)
  moreover have "d_add s (d_mul (Finite 0) d) = s" if "s \<noteq> NegZero"
    using assms(2,3) z that by (rule d_add_zero_right_same)
  ultimately show ?thesis
    unfolding ieee_ratio_zero [OF assms(1)] by (simp add: ieee_arith_def)
qed

lemma ieee_last_general:
  assumes "2 \<le> n" "is_double d"
  shows "f_add ieee_arith s
       (f_mul ieee_arith (f_div ieee_arith (f_int ieee_arith (n - 1)) (f_int ieee_arith (n - 1))) d)
     = d_add s d"
  unfolding ieee_ratio_one [OF assms(1)] using assms(2) by (simp add: ieee_arith_def d_mul_one)

lemma ieee_first_real_axis:
  assumes "2 \<le> width" "is_finite (realStart ieee_arith zoom offsetX)"
    and "is_finite (d_sub (realEnd ieee_arith zoom offsetX) (realStart ieee_arith zoom offsetX))"
  shows "d_eq (fst (pixel_point ieee_arith width height zoom offsetX offsetY 0 y))
       (realStart ieee_arith zoom offsetX) \<and>
     (realStart ieee_arith zoom offsetX \<noteq> NegZero \<longrightarrow>
        fst (pixel_point ieee_arith width height zoom offsetX offsetY 0 y)
          = realStart ieee_arith zoom offsetX)"
proof -
  let ?s = "realStart ieee_arith zoom offsetX"
  let ?v = "f_add ieee_arith ?s
       (f_mul ieee_arith (f_div ieee_arith (f_int ieee_arith 0) (f_int ieee_arith (width - 1)))
          (d_sub (realEnd ieee_arith zoom offsetX) ?s))"
  have "d_eq ?v ?s \<and> (?s \<noteq> NegZero \<longrightarrow> ?v = ?s)"
    using assms(1) is_double_bounds(1) assms(2,3) by (rule ieee_first_general)
  moreover have "fst (pixel_point ieee_arith width height zoom offsetX offsetY 0 y) = ?v"
    by (simp add: pixel_point_def) (simp add: ieee_arith_def)
  ultimately show ?thesis by simp
qed

lemma ieee_first_imag_axis:
  assumes "2 \<le> height" "is_finite (imagStart ieee_arith zoom offsetY)"
    and "is_finite (d_sub (imagEnd ieee_arith zoom offsetY) (imagStart ieee_arith zoom offsetY))"
  shows "d_eq (snd (pixel_point ieee_arith width height zoom offsetX offsetY x 0))
       (imagStart ieee_arith zoom offsetY) \<and>
     (imagStart ieee_arith zoom offsetY \<noteq> NegZero \<longrightarrow>
        snd (pixel_point ieee_arith width height zoom offsetX offsetY x 0)
          = imagStart ieee_arith zoom offsetY)"
proof -
  let ?s = "imagStart ieee_arith zoom offsetY"
  let ?v = "f_add ieee_arith ?s
       (f_mul ieee_arith (f_div ieee_arith (f_int ieee_arith 0) (f_int ieee_arith (height - 1)))
          (d_sub (imagEnd ieee_arith zoom offsetY) ?s))"
  have "d_eq ?v ?s \<and> (?s \<noteq> NegZero \<longrightarrow> ?v = ?s)"
    using assms(1) is_double_bounds(3) assms(2,3) by (rule ieee_first_general)
  moreover have "snd (pixel_point ieee_arith width height zoom offsetX offsetY x 0) = ?v"
    by (simp add: pixel_point_def) (simp add: ieee_arith_def)
  ultimately show ?thesis by simp
qed

lemma ieee_last_real_axis:
  assumes "2 \<le> width"
  shows "fst (pixel_point ieee_arith width height zoom offsetX offsetY (width - 1) y) =
     d_add (realStart ieee_arith zoom offsetX)
       (d_sub (realEnd ieee_arith zoom offsetX) (realStart ieee_arith zoom offsetX))"
proof -
  have "f_add ieee_arith (realStart ieee_arith zoom offsetX)
       (f_mul ieee_arith
          (f_div ieee_arith (f_int ieee_arith (width - 1)) (f_int ieee_arith (width - 1)))
          (d_sub (realEnd ieee_arith zoom offsetX) (realStart ieee_arith zoom offsetX)))
     = d_add (realStart ieee_arith zoom offsetX)
         (d_sub (realEnd ieee_arith zoom offsetX) (realStart ieee_arith zoom offsetX))"
    using assms is_double_sub by (rule ieee_last_general)
  then show ?thesis by (simp add: pixel_point_def) (simp add: ieee_arith_def)
qed

lemma ieee_last_imag_axis:
  assumes "2 \<le> height"
  shows "snd (pixel_point ieee_arith width height zoom offsetX offsetY x (height - 1)) =
     d_add (imagStart ieee_arith zoom offsetY)
       (d_sub (imagEnd ieee_arith zoom offsetY) (imagStart ieee_arith zoom offsetY))"
proof -
  have "f_add ieee_arith (imagStart ieee_arith zoom offsetY)
       (f_mul ieee_arith
          (f_div ieee_arith (f_int ieee_arith (height - 1)) (f_int ieee_arith (height - 1)))
          (d_sub (imagEnd ieee_arith zoom offsetY) (imagStart ieee_arith zoom offsetY)))
     = d_add (imagStart ieee_arith zoom offsetY)
         (d_sub (imagEnd ieee_arith zoom offsetY) (imagStart ieee_arith zoom offsetY))"
    using assms is_double_sub by (rule ieee_last_general)
  then show ?thesis by (simp add: pixel_point_def) (simp add: ieee_arith_def)
qed

lemma real_axes:
  "fst (pixel_point real_arith width height zoom offsetX offsetY 0 y) = realStart real_arith zoom offsetX"
  "snd (pixel_point real_arith width height zoom offsetX offsetY x 0) = imagStart real_arith zoom offsetY"
  "2 \<le> width \<Longrightarrow>
     fst (pixel_point real_arith width height zoom offsetX offsetY (width - 1) y)
       = realEnd real_arith zoom offsetX"
  "2 \<le> height \<Longrightarrow>
     snd (pixel_point real_arith width height zoom offsetX offsetY x (height - 1))
       = imagEnd real_arith zoom offsetY"
  by (simp_all add: pixel_point_def real_arith_def)

lemma ieee_default_axes:
  assumes "2 \<le> width" "2 \<le> height"
  shows "fst (pixel_point ieee_arith width height (Finite 1) (Finite 0) (Finite 0) 0 y) = Finite (- 2)"
    "snd (pixel_point ieee_arith width height (Finite 1) (Finite 0) (Finite 0) x 0)
       = Finite (- (3 / 2))"
    "fst (pixel_point ieee_arith width height (Finite 1) (Finite 0) (Finite 0) (width - 1) y)
       = Finite 1"
    "snd (pixel_point ieee_arith width height (Finite 1) (Finite 0) (Finite 0) x (height - 1))
       = Finite (3 / 2)"
proof -
  show "fst (pixel_point ieee_arith width height (Finite 1) (Finite 0) (Finite 0) 0 y) = Finite (- 2)"
    unfolding pixel_point_def fst_conv ieee_default_bounds ieee_ratio_zero [OF assms(1)]
    by (simp add: ieee_ops rnd_3 rnd_m2)
  show "snd (pixel_point ieee_arith width height (Finite 1) (Finite 0) (Finite 0) x 0)
       = Finite (- (3 / 2))"
    unfolding pixel_point_def snd_conv ieee_default_bounds ieee_ratio_zero [OF assms(2)]
    by (simp add: ieee_ops rnd_3 rnd_m3h)
  show "fst (pixel_point ieee_arith width height (Finite 1) (Finite 0) (Finite 0) (width - 1) y)
       = Finite 1"
    unfolding pixel_point_def fst_conv ieee_default_bounds ieee_ratio_one [OF assms(1)]
    by (simp add: ieee_ops rnd_3 rnd_1)
  show "snd (pixel_point ieee_arith width height (Finite 1) (Finite 0) (Finite 0) x (height - 1))
       = Finite (3 / 2)"
    unfolding pixel_point_def snd_conv ieee_default_bounds ieee_ratio_one [OF assms(2)]
    by (simp add: ieee_ops rnd_3 rnd_3h)
qed

lemma render_2x2_corners:
  "\<exists>buf. generateMandelbrot A 2 2 1 zoom offsetX offsetY = Inr buf \<and> length buf = 4 \<and>
     Inr (buf ! 0) = pixelColor A 2 2 1 zoom offsetX offsetY 0 0 \<and>
     Inr (buf ! 3) = pixelColor A 2 2 1 zoom offsetX offsetY 1 1"
proof -
  have ok: "\<forall>x y. 0 \<le> x \<and> x < 2 \<and> 0 \<le> y \<and> y < 2 \<longrightarrow>
      (\<exists>col. pixelColor A 2 2 1 zoom offsetX offsetY x y = Inr col)"
    by (intro allI impI pixelColor_ok) simp
  have "\<exists>buf. generateMandelbrot A 2 2 1 zoom offsetX offsetY = Inr buf \<and>
      int (length buf) = 2 * 2 \<and>
      (\<forall>x y. 0 \<le> x \<and> x < 2 \<and> 0 \<le> y \<and> y < 2 \<longrightarrow>
         Inr (buf ! nat (y * 2 + x)) = pixelColor A 2 2 1 zoom offsetX offsetY x y)"
    by (rule generateMandelbrot_spec [OF ok]) (simp_all add: in_int_def INT_MIN_def INT_MAX_def)
  then obtain buf where
    buf: "generateMandelbrot A 2 2 1 zoom offsetX offsetY = Inr buf"
    and len: "int (length buf) = 2 * 2"
    and px: "\<forall>x y. 0 \<le> x \<and> x < 2 \<and> 0 \<le> y \<and> y < 2 \<longrightarrow>
         Inr (buf ! nat (y * 2 + x)) = pixelColor A 2 2 1 zoom offsetX offsetY x y"
    by (elim exE conjE)
  have "Inr (buf ! nat (0 * 2 + 0)) = pixelColor A 2 2 1 zoom offsetX offsetY 0 0"
    by (rule px [rule_format]) simp
  moreover have "Inr (buf ! nat (1 * 2 + 1)) = pixelColor A 2 2 1 zoom offsetX offsetY 1 1"
    by (rule px [rule_format]) simp
  ultimately show ?thesis using buf len by simp
qed

lemma span_tenth:
  "d_sub (realEnd ieee_arith (f_lit ieee_arith (1 / 10)) (Finite 0))
     (realStart ieee_arith (f_lit ieee_arith (1 / 10)) (Finite 0))
   = Finite (1351079888211149 / 4503599627370496)"
  unfolding realEnd_tenth realStart_tenth
  by (simp add: d_sub_def d_add_def rnd_three_tenths)

section \<open>The claims\<close>

subsection \<open>C1: a point with magnitude at least 2\<close>

text \<open>
  Claim C1 says that for every \<open>c\<close> with \<open>|c|\<^sup>2 \<ge> 4\<close> and every cap \<open>N \<ge> 1\<close> the escape
  loop returns 0. The loop does not test \<open>c\<close> first: it tests \<open>z\<close>, which starts at 0
  and passes the guard, so one update is made (\<open>z\<close> becomes \<open>0 * 0 + c\<close>) and counted,
  and the second test fails. As amended: for every \<open>c\<close> at which the guard
  \<open>std::norm(c) < 4.0\<close> is false (\<open>|c|\<^sup>2 \<ge> 4\<close>) and every cap \<open>N \<ge> 1\<close> the loop
  returns 1. Proved in binary64 for every pair \<open>c\<close> of \<open>double\<close>s, signed zeros,
  infinities and NaN included, and so for the point of every pixel of every render; and
  in exact arithmetic for every \<open>c\<close>.
\<close>

theorem far_point_counts_one:
  assumes "1 \<le> maxIterations"
  shows "(is_double (fst c) \<and> is_double (snd c) \<and> \<not> bounded ieee_arith c \<longrightarrow>
        escapeTime ieee_arith c maxIterations = 1) \<and>
     (\<not> bounded ieee_arith (pixel_point ieee_arith width height zoom offsetX offsetY x y) \<longrightarrow>
        escapeTime ieee_arith (pixel_point ieee_arith width height zoom offsetX offsetY x y)
          maxIterations = 1) \<and>
     (4 \<le> cplx_norm real_arith c' \<longrightarrow> escapeTime real_arith c' maxIterations = 1)"
proof (intro conjI impI)
  assume "is_double (fst c) \<and> is_double (snd c) \<and> \<not> bounded ieee_arith c"
  then show "escapeTime ieee_arith c maxIterations = 1"
    using assms by (intro ieee_far_point) simp_all
next
  assume "\<not> bounded ieee_arith (pixel_point ieee_arith width height zoom offsetX offsetY x y)"
  then show "escapeTime ieee_arith (pixel_point ieee_arith width height zoom offsetX offsetY x y)
          maxIterations = 1"
    using assms by (intro ieee_far_point is_double_pixel_point)
next
  assume "4 \<le> cplx_norm real_arith c'"
  then have "\<not> bounded real_arith c'" by (simp add: bounded_def real_arith_def)
  then show "escapeTime real_arith c' maxIterations = 1"
    using assms by (intro one_turn_then_exit real_first_step real_bounded_zero)
qed

text \<open>
  The claim as stated fails at \<open>c = 2 + 0i\<close>, \<open>N = 1\<close> in binary64: \<open>|c|\<^sup>2\<close> is 4
  and the loop returns 1, not 0.
\<close>

theorem far_point_counts_one_counterexample:
  "cplx_norm ieee_arith (Finite 2, Finite 0) = Finite 4 \<and>
   escapeTime ieee_arith (Finite 2, Finite 0) 1 = 1 \<and>
   escapeTime ieee_arith (Finite 2, Finite 0) 1 \<noteq> 0"
  by (simp add: ieee_norm_two ieee_escapeTime_two)

theorem far_point_counts_one_witness:
  "(1::int) \<le> 7 \<and> is_double (fst (NegZero, Finite 3)) \<and> is_double (snd (NegZero, Finite 3)) \<and>
   \<not> bounded ieee_arith (NegZero, Finite 3) \<and>
   escapeTime ieee_arith (NegZero, Finite 3) 7 = 1 \<and>
   4 \<le> cplx_norm real_arith (0, 3) \<and> escapeTime real_arith (0, 3) 7 = 1"
proof -
  have h: "(1::int) \<le> 7" by simp
  have n: "4 \<le> cplx_norm real_arith (0, 3)" by (simp add: real_ops)
  have d: "is_double (fst (NegZero, Finite 3))" "is_double (snd (NegZero, Finite 3))"
    by (simp_all add: rnd_3)
  show ?thesis
    using far_point_counts_one [OF h, of "(NegZero, Finite 3)" _ _ _ _ _ _ _ "(0, 3)"]
      h n d ieee_norm_neg_zero_three
    by simp
qed

subsection \<open>C2: the range of the result and the value \<open>maxIterations\<close>\<close>

text \<open>
  Claim C2 says that for \<open>maxIterations \<ge> 1\<close> the result lies in
  \<open>[0, maxIterations]\<close>, and is \<open>maxIterations\<close> if and only if the orbit from
  \<open>z = 0\<close> never reaches \<open>|z|\<^sup>2 \<ge> 4\<close> within the budget. The range holds. The
  equivalence holds for the states the guard tests before a turn, which are
  \<open>z\<^sub>0, \<dots>, z\<^sub>N\<^sub>-\<^sub>1\<close>; the state \<open>z\<^sub>N\<close> that the last turn produces
  is not among them, so an orbit that reaches \<open>|z|\<^sup>2 \<ge> 4\<close> with its last allowed
  update still returns \<open>maxIterations\<close>. As amended, for every arithmetic and every
  \<open>maxIterations \<ge> 0\<close>: the result \<open>n\<close> is in \<open>[0, maxIterations]\<close>;
  \<open>n = maxIterations\<close> if and only if \<open>|z\<^sub>k|\<^sup>2 < 4\<close> for every \<open>k < maxIterations\<close>;
  the guard holds at every \<open>z\<^sub>k\<close> with \<open>k < n\<close>; and if \<open>n < maxIterations\<close> the guard
  fails at \<open>z\<^sub>n\<close>.
\<close>

theorem escapeTime_range_and_sentinel:
  assumes "0 \<le> maxIterations"
  shows "0 \<le> escapeTime A c maxIterations \<and> escapeTime A c maxIterations \<le> maxIterations \<and>
     (escapeTime A c maxIterations = maxIterations \<longleftrightarrow>
        (\<forall>k < nat maxIterations. bounded A (orbit A c k))) \<and>
     (\<forall>k < nat (escapeTime A c maxIterations). bounded A (orbit A c k)) \<and>
     (escapeTime A c maxIterations < maxIterations \<longrightarrow>
        \<not> bounded A (orbit A c (nat (escapeTime A c maxIterations))))"
proof -
  have r: "0 \<le> escapeTime A c maxIterations \<and> escapeTime A c maxIterations \<le> maxIterations"
    using escapeTime_range [of A c maxIterations] assms by simp
  have p: "\<forall>k < nat (escapeTime A c maxIterations). bounded A (orbit A c k)"
    using escape_loop_prefix [of A c maxIterations "(f_lit A 0, f_lit A 0)" 0]
    by (simp add: escapeTime_def orbit_funpow)
  have x: "escapeTime A c maxIterations < maxIterations \<longrightarrow>
        \<not> bounded A (orbit A c (nat (escapeTime A c maxIterations)))"
    using escape_loop_exit [of A c maxIterations "(f_lit A 0, f_lit A 0)" 0]
    by (simp add: escapeTime_def orbit_funpow)
  show ?thesis using r p x escapeTime_orbit_full [OF assms, of A c] by simp
qed

text \<open>
  The claim as stated fails at \<open>c = 2 + 0i\<close>, \<open>maxIterations = 1\<close>: the result is
  \<open>maxIterations\<close>, and the orbit has reached \<open>|z|\<^sup>2 = 4\<close> after its one update.
\<close>

theorem escapeTime_range_and_sentinel_counterexample:
  "escapeTime ieee_arith (Finite 2, Finite 0) 1 = 1 \<and>
   \<not> bounded ieee_arith (orbit ieee_arith (Finite 2, Finite 0) 1)"
  by (simp add: ieee_escapeTime_two ieee_zero_lit ieee_step_two ieee_not_bounded_two)

theorem escapeTime_range_and_sentinel_witness:
  "(0::int) \<le> 5 \<and> 0 \<le> escapeTime real_arith (1, 0) 5 \<and> escapeTime real_arith (1, 0) 5 \<le> 5 \<and>
   escapeTime real_arith (1, 0) 5 = 2 \<and>
   bounded real_arith (orbit real_arith (1, 0) 1) \<and>
   \<not> bounded real_arith (orbit real_arith (1, 0) 2)"
proof -
  have h: "(0::int) \<le> 5" by simp
  have e: "escapeTime real_arith (1, 0) 5 = 2" by (rule real_escapeTime_one)
  have t: "(\<forall>k < nat 2. bounded real_arith (orbit real_arith (1, 0) k)) \<and>
     \<not> bounded real_arith (orbit real_arith (1, 0) (nat 2))"
    using escapeTime_range_and_sentinel [OF h, of real_arith "(1, 0)"] unfolding e by simp
  have "(1::nat) < nat 2" by simp
  with t have "bounded real_arith (orbit real_arith (1, 0) 1)" by blast
  moreover have "\<not> bounded real_arith (orbit real_arith (1, 0) 2)" using t by simp
  ultimately show ?thesis using e by simp
qed

subsection \<open>C3: the points 0 and -1\<close>

text \<open>
  Claim C3: for \<open>c = 0\<close> the orbit stays at 0, for \<open>c = -1\<close> it alternates between 0
  and -1, so for every cap \<open>N\<close> (a count, \<open>N \<ge> 0\<close>) the loop returns \<open>N\<close> and the
  colour is black. Proved in binary64, where every value of the two orbits is exact,
  and in exact arithmetic.
\<close>

theorem known_points_never_escape:
  assumes "0 \<le> N"
  shows "escapeTime ieee_arith (Finite 0, Finite 0) N = N \<and>
     escapeTime ieee_arith (Finite (- 1), Finite 0) N = N \<and>
     (\<forall>k. orbit ieee_arith (Finite 0, Finite 0) k = (Finite 0, Finite 0)) \<and>
     (\<forall>k. orbit ieee_arith (Finite (- 1), Finite 0) k =
        (if even k then (Finite 0, Finite 0) else (Finite (- 1), Finite 0))) \<and>
     getColor (escapeTime ieee_arith (Finite 0, Finite 0) N) N = Inr black \<and>
     getColor (escapeTime ieee_arith (Finite (- 1), Finite 0) N) N = Inr black \<and>
     escapeTime real_arith (0, 0) N = N \<and>
     escapeTime real_arith (- 1, 0) N = N"
  using assms
  by (simp add: ieee_escapeTime_zero ieee_escapeTime_minus_one ieee_orbit_zero
      ieee_orbit_minus_one getColor_same real_escapeTime_zero real_escapeTime_minus_one)

theorem known_points_never_escape_witness:
  "(0::int) \<le> 100 \<and> escapeTime ieee_arith (Finite 0, Finite 0) 100 = 100 \<and>
   escapeTime ieee_arith (Finite (- 1), Finite 0) 100 = 100 \<and>
   orbit ieee_arith (Finite (- 1), Finite 0) 3 = (Finite (- 1), Finite 0) \<and>
   getColor (escapeTime ieee_arith (Finite (- 1), Finite 0) 100) 100 = Inr black"
proof -
  have h: "(0::int) \<le> 100" by simp
  show ?thesis using known_points_never_escape [OF h] by (simp add: getColor_same)
qed

subsection \<open>C4: the colour mapper\<close>

text \<open>
  Claim C4 says that for every \<open>iterations\<close> and every \<open>maxIterations \<ge> 1\<close>,
  \<open>getColor\<close> returns black exactly when \<open>iterations = maxIterations\<close>, and otherwise
  the triple \<open>(v mod 255, v * 2 mod 255, v * 4 mod 255)\<close> of
  \<open>v = iterations * 255 div maxIterations\<close>. The two cases are as the claim says, but
  the triple is black as well when \<open>v = 0\<close>, so black does not tell the two cases
  apart. As amended, for \<open>0 \<le> iterations \<le> maxIterations\<close>, \<open>maxIterations \<ge> 1\<close> and
  \<open>iterations * 255\<close> within \<open>int\<close>: \<open>getColor\<close> returns a colour; it is black when
  \<open>iterations = maxIterations\<close>; otherwise its channels are \<open>v mod 255\<close>,
  \<open>v * 2 mod 255\<close> and \<open>v * 4 mod 255\<close>; and it is black if and only if
  \<open>iterations = maxIterations\<close> or \<open>iterations * 255 < maxIterations\<close>.
\<close>

theorem getColor_cases:
  assumes "1 \<le> maxIterations" "0 \<le> iterations" "iterations \<le> maxIterations"
    and "iterations * 255 \<le> INT_MAX"
  shows "\<exists>col. getColor iterations maxIterations = Inr col \<and>
     (iterations = maxIterations \<longrightarrow> col = black) \<and>
     (iterations \<noteq> maxIterations \<longrightarrow>
        uint (r col) = (iterations * 255 div maxIterations) mod 255 \<and>
        uint (g col) = (iterations * 255 div maxIterations) * 2 mod 255 \<and>
        uint (b col) = (iterations * 255 div maxIterations) * 4 mod 255) \<and>
     (col = black \<longleftrightarrow> iterations = maxIterations \<or> iterations * 255 < maxIterations)"
proof (cases "iterations = maxIterations")
  case True
  then show ?thesis by (simp add: getColor_same)
next
  case False
  then have lt: "iterations < maxIterations" using assms(3) by simp
  define cv where "cv = iterations * 255 div maxIterations"
  have cv: "0 \<le> cv" "cv < 255"
    using colorValue_bounds [OF assms(2) lt] by (simp_all add: cv_def)
  let ?col = "\<lparr>r = word_of_int (cv mod 255), g = word_of_int (cv * 2 mod 255),
      b = word_of_int (cv * 4 mod 255)\<rparr>"
  have col: "getColor iterations maxIterations = Inr ?col"
    unfolding cv_def by (rule getColor_below [OF assms(2) lt assms(4)])
  have ch: "uint (r ?col) = cv mod 255" "uint (g ?col) = cv * 2 mod 255"
    "uint (b ?col) = cv * 4 mod 255"
    by (simp_all add: uint_channel)
  have z: "(cv = 0) = (iterations * 255 < maxIterations)"
    using assms(1,2) unfolding cv_def
    by (auto simp: zdiv_eq_0_iff)
  have "(?col = black) = (cv = 0)"
  proof
    assume "?col = black"
    then have "uint (r ?col) = 0" by (simp add: black_def)
    then have "cv mod 255 = 0" using ch(1) by simp
    then show "cv = 0" using cv by simp
  next
    assume "cv = 0"
    then show "?col = black" by (simp add: black_def)
  qed
  then show ?thesis using col ch z False unfolding cv_def [symmetric] by simp
qed

text \<open>
  The claim as stated fails at \<open>iterations = 1\<close>, \<open>maxIterations = 500\<close> (the cap
  of the second call in \<open>main\<close>): \<open>255 / 500 = 0\<close>, and the colour is black.
\<close>

theorem getColor_cases_counterexample:
  "getColor 1 500 = Inr black \<and> (1::int) \<noteq> 500"
  by (simp add: getColor_def in_int_def INT_MIN_def INT_MAX_def black_def)

theorem getColor_cases_witness:
  "(1::int) \<le> 10 \<and> (0::int) \<le> 3 \<and> (3::int) \<le> 10 \<and> (3::int) * 255 \<le> INT_MAX \<and>
   getColor 3 10 = Inr \<lparr>r = 76, g = 152, b = 49\<rparr> \<and>
   (\<exists>col. getColor 3 10 = Inr col \<and> uint (r col) = 76 \<and> uint (g col) = 152 \<and> uint (b col) = 49)"
proof -
  have h: "(1::int) \<le> 10" "(0::int) \<le> 3" "(3::int) \<le> 10" "(3::int) * 255 \<le> INT_MAX"
    by (simp_all add: INT_MAX_def)
  have e: "getColor 3 10 = Inr \<lparr>r = 76, g = 152, b = 49\<rparr>"
    by (simp add: getColor_def in_int_def INT_MIN_def INT_MAX_def)
  show ?thesis using getColor_cases [OF h] h e by simp
qed

subsection \<open>C5: more budget never lowers the count\<close>

text \<open>
  Claim C5: for every \<open>c\<close> and all caps \<open>N1 \<le> N2\<close>, the result for \<open>N1\<close> is at most
  the result for \<open>N2\<close>. Proved for every arithmetic.
\<close>

theorem escapeTime_mono:
  assumes "N1 \<le> N2"
  shows "escapeTime A c N1 \<le> escapeTime A c N2"
  unfolding escapeTime_def using assms by (rule escape_loop_mono)

theorem escapeTime_mono_witness:
  "(1::int) \<le> 5 \<and> escapeTime real_arith (1, 0) 1 \<le> escapeTime real_arith (1, 0) 5"
proof -
  have h: "(1::int) \<le> 5" by simp
  show ?thesis using escapeTime_mono [OF h, of real_arith "(1, 0)"] by simp
qed

subsection \<open>C6: the first and the last pixel\<close>

text \<open>
  Claim C6 says that pixel 0 maps exactly to \<open>realStart\<close> (\<open>imagStart\<close>) and pixel
  \<open>width - 1\<close> (\<open>height - 1\<close>) exactly to \<open>realEnd\<close> (\<open>imagEnd\<close>), and that the 2 by 2
  render at zoom 1, offset 0 has 4 pixels, the first at \<open>(-2, -1.5)\<close> and the last at
  \<open>(1, 1.5)\<close>. All of it holds but the exactness of the last pixel in binary64 outside
  the default window: the last pixel is \<open>realStart + 1.0 * (realEnd - realStart)\<close>, a
  rounded difference and a rounded sum. As amended, for \<open>width, height \<ge> 2\<close>, on each
  axis and whatever the other coordinate:
  \<^item> in exact arithmetic pixel \<open>x = 0\<close> maps to \<open>realStart\<close>, \<open>y = 0\<close> to \<open>imagStart\<close>,
    \<open>x = width - 1\<close> to \<open>realEnd\<close> and \<open>y = height - 1\<close> to \<open>imagEnd\<close>, for every zoom
    and offset;
  \<^item> in binary64 pixel \<open>x = 0\<close> equals \<open>realStart\<close> (\<open>==\<close>, and identically unless
    \<open>realStart\<close> is \<open>-0\<close>) whenever \<open>realStart\<close> and \<open>realEnd - realStart\<close> are finite,
    and likewise \<open>y = 0\<close> and \<open>imagStart\<close>;
  \<^item> in binary64 pixel \<open>x = width - 1\<close> is the sum \<open>realStart + (realEnd - realStart)\<close>
    and \<open>y = height - 1\<close> the sum \<open>imagStart + (imagEnd - imagStart)\<close>;
  \<^item> in binary64 at zoom 1, offset 0 the bounds are \<open>-2, 1, -1.5, 1.5\<close>, and the four
    end pixels map exactly to them;
  \<^item> the 2 by 2 render with cap 1 at zoom 1, offset 0 has exactly 4 pixels, element 0
    the colour of pixel \<open>(0, 0)\<close> and element 3 the colour of pixel \<open>(1, 1)\<close>.
\<close>

theorem endpoint_mapping:
  assumes "2 \<le> width" "2 \<le> height"
  shows "fst (pixel_point real_arith width height zoom offsetX offsetY 0 y)
       = realStart real_arith zoom offsetX \<and>
     snd (pixel_point real_arith width height zoom offsetX offsetY x 0)
       = imagStart real_arith zoom offsetY \<and>
     fst (pixel_point real_arith width height zoom offsetX offsetY (width - 1) y)
       = realEnd real_arith zoom offsetX \<and>
     snd (pixel_point real_arith width height zoom offsetX offsetY x (height - 1))
       = imagEnd real_arith zoom offsetY \<and>
     (is_finite (realStart ieee_arith dzoom dX) \<and>
      is_finite (d_sub (realEnd ieee_arith dzoom dX) (realStart ieee_arith dzoom dX)) \<longrightarrow>
        d_eq (fst (pixel_point ieee_arith width height dzoom dX dY 0 y))
          (realStart ieee_arith dzoom dX) \<and>
        (realStart ieee_arith dzoom dX \<noteq> NegZero \<longrightarrow>
           fst (pixel_point ieee_arith width height dzoom dX dY 0 y)
             = realStart ieee_arith dzoom dX)) \<and>
     (is_finite (imagStart ieee_arith dzoom dY) \<and>
      is_finite (d_sub (imagEnd ieee_arith dzoom dY) (imagStart ieee_arith dzoom dY)) \<longrightarrow>
        d_eq (snd (pixel_point ieee_arith width height dzoom dX dY x 0))
          (imagStart ieee_arith dzoom dY) \<and>
        (imagStart ieee_arith dzoom dY \<noteq> NegZero \<longrightarrow>
           snd (pixel_point ieee_arith width height dzoom dX dY x 0)
             = imagStart ieee_arith dzoom dY)) \<and>
     fst (pixel_point ieee_arith width height dzoom dX dY (width - 1) y)
       = d_add (realStart ieee_arith dzoom dX)
           (d_sub (realEnd ieee_arith dzoom dX) (realStart ieee_arith dzoom dX)) \<and>
     snd (pixel_point ieee_arith width height dzoom dX dY x (height - 1))
       = d_add (imagStart ieee_arith dzoom dY)
           (d_sub (imagEnd ieee_arith dzoom dY) (imagStart ieee_arith dzoom dY)) \<and>
     realStart ieee_arith (Finite 1) (Finite 0) = Finite (- 2) \<and>
     realEnd ieee_arith (Finite 1) (Finite 0) = Finite 1 \<and>
     imagStart ieee_arith (Finite 1) (Finite 0) = Finite (- (3 / 2)) \<and>
     imagEnd ieee_arith (Finite 1) (Finite 0) = Finite (3 / 2) \<and>
     fst (pixel_point ieee_arith width height (Finite 1) (Finite 0) (Finite 0) 0 y)
       = Finite (- 2) \<and>
     snd (pixel_point ieee_arith width height (Finite 1) (Finite 0) (Finite 0) x 0)
       = Finite (- (3 / 2)) \<and>
     fst (pixel_point ieee_arith width height (Finite 1) (Finite 0) (Finite 0) (width - 1) y)
       = Finite 1 \<and>
     snd (pixel_point ieee_arith width height (Finite 1) (Finite 0) (Finite 0) x (height - 1))
       = Finite (3 / 2) \<and>
     (\<exists>buf. generateMandelbrot A 2 2 1 (f_lit A 1) (f_lit A 0) (f_lit A 0) = Inr buf \<and>
        length buf = 4 \<and>
        Inr (buf ! 0) = pixelColor A 2 2 1 (f_lit A 1) (f_lit A 0) (f_lit A 0) 0 0 \<and>
        Inr (buf ! 3) = pixelColor A 2 2 1 (f_lit A 1) (f_lit A 0) (f_lit A 0) 1 1)"
proof -
  have r: "fst (pixel_point real_arith width height zoom offsetX offsetY 0 y)
       = realStart real_arith zoom offsetX"
    "snd (pixel_point real_arith width height zoom offsetX offsetY x 0)
       = imagStart real_arith zoom offsetY"
    "fst (pixel_point real_arith width height zoom offsetX offsetY (width - 1) y)
       = realEnd real_arith zoom offsetX"
    "snd (pixel_point real_arith width height zoom offsetX offsetY x (height - 1))
       = imagEnd real_arith zoom offsetY"
    using assms by (simp_all add: real_axes)
  have l: "is_finite (realStart ieee_arith dzoom dX) \<and>
      is_finite (d_sub (realEnd ieee_arith dzoom dX) (realStart ieee_arith dzoom dX)) \<longrightarrow>
        d_eq (fst (pixel_point ieee_arith width height dzoom dX dY 0 y))
          (realStart ieee_arith dzoom dX) \<and>
        (realStart ieee_arith dzoom dX \<noteq> NegZero \<longrightarrow>
           fst (pixel_point ieee_arith width height dzoom dX dY 0 y)
             = realStart ieee_arith dzoom dX)"
    "is_finite (imagStart ieee_arith dzoom dY) \<and>
      is_finite (d_sub (imagEnd ieee_arith dzoom dY) (imagStart ieee_arith dzoom dY)) \<longrightarrow>
        d_eq (snd (pixel_point ieee_arith width height dzoom dX dY x 0))
          (imagStart ieee_arith dzoom dY) \<and>
        (imagStart ieee_arith dzoom dY \<noteq> NegZero \<longrightarrow>
           snd (pixel_point ieee_arith width height dzoom dX dY x 0)
             = imagStart ieee_arith dzoom dY)"
    using ieee_first_real_axis [OF assms(1)] ieee_first_imag_axis [OF assms(2)] by blast+
  show ?thesis
    by (intro conjI r l ieee_last_real_axis [OF assms(1)] ieee_last_imag_axis [OF assms(2)]
        ieee_default_axes [OF assms] render_2x2_corners ieee_default_bounds)
qed

text \<open>
  The claim as stated fails in binary64 at zoom \<open>0.1\<close>, offset 0, \<open>width = 2\<close>: the last
  pixel's real part is \<open>0.10000000000000003\<close> (\<open>1801439850948199 / 2^54\<close>), and
  \<open>realEnd\<close> is \<open>0.1\<close> (\<open>3602879701896397 / 2^55\<close>).
\<close>

theorem endpoint_mapping_counterexample:
  "fst (pixel_point ieee_arith 2 2 (f_lit ieee_arith (1 / 10)) (Finite 0) (Finite 0) 1 1)
     = Finite (1801439850948199 / 18014398509481984) \<and>
   realEnd ieee_arith (f_lit ieee_arith (1 / 10)) (Finite 0)
     = Finite (3602879701896397 / 36028797018963968) \<and>
   fst (pixel_point ieee_arith 2 2 (f_lit ieee_arith (1 / 10)) (Finite 0) (Finite 0) 1 1)
     \<noteq> realEnd ieee_arith (f_lit ieee_arith (1 / 10)) (Finite 0)"
  by (simp add: pixel_tenth realEnd_tenth)

theorem endpoint_mapping_witness:
  "(2::int) \<le> 2 \<and>
   fst (pixel_point real_arith 2 2 1 0 0 0 1) = - 2 \<and>
   snd (pixel_point real_arith 2 2 1 0 0 1 0) = - (3 / 2) \<and>
   fst (pixel_point real_arith 2 2 1 0 0 1 0) = 1 \<and>
   snd (pixel_point real_arith 2 2 1 0 0 0 1) = 3 / 2 \<and>
   is_finite (realStart ieee_arith (f_lit ieee_arith (1 / 10)) (Finite 0)) \<and>
   is_finite (d_sub (realEnd ieee_arith (f_lit ieee_arith (1 / 10)) (Finite 0))
     (realStart ieee_arith (f_lit ieee_arith (1 / 10)) (Finite 0))) \<and>
   d_eq (fst (pixel_point ieee_arith 2 2 (f_lit ieee_arith (1 / 10)) (Finite 0) (Finite 0) 0 1))
     (realStart ieee_arith (f_lit ieee_arith (1 / 10)) (Finite 0)) \<and>
   fst (pixel_point ieee_arith 2 2 (f_lit ieee_arith (1 / 10)) (Finite 0) (Finite 0) 0 1)
     = Finite (- (3602879701896397 / 18014398509481984)) \<and>
   fst (pixel_point ieee_arith 2 2 (Finite 1) (Finite 0) (Finite 0) 0 1) = Finite (- 2) \<and>
   fst (pixel_point ieee_arith 2 2 (Finite 1) (Finite 0) (Finite 0) 1 0) = Finite 1 \<and>
   (\<exists>buf. generateMandelbrot ieee_arith 2 2 1 (Finite 1) (Finite 0) (Finite 0) = Inr buf \<and>
      length buf = 4)"
proof -
  have h: "(2::int) \<le> 2" by simp
  have b: "realStart real_arith 1 0 = - 2" "imagStart real_arith 1 0 = - (3 / 2)"
    "realEnd real_arith 1 0 = 1" "imagEnd real_arith 1 0 = 3 / 2"
    by (simp_all add: realStart_def realEnd_def imagStart_def imagEnd_def real_arith_def
        of_rat_divide of_rat_minus)
  have l: "f_lit ieee_arith 1 = Finite 1" "f_lit ieee_arith 0 = Finite 0"
    by (simp_all add: ieee_arith_def rnd_1 rnd_0)
  have f: "is_finite (realStart ieee_arith (f_lit ieee_arith (1 / 10)) (Finite 0))"
    "is_finite (d_sub (realEnd ieee_arith (f_lit ieee_arith (1 / 10)) (Finite 0))
       (realStart ieee_arith (f_lit ieee_arith (1 / 10)) (Finite 0)))"
    unfolding span_tenth unfolding realStart_tenth by (simp_all add: is_finite_def)
  have nz: "realStart ieee_arith (f_lit ieee_arith (1 / 10)) (Finite 0) \<noteq> NegZero"
    "realStart ieee_arith (f_lit ieee_arith (1 / 10)) (Finite 0)
      = Finite (- (3602879701896397 / 18014398509481984))"
    unfolding realStart_tenth by simp_all
  note t1 = endpoint_mapping [OF h h, where zoom = 1 and offsetX = 0 and offsetY = 0
      and x = 0 and y = 1 and dzoom = "f_lit ieee_arith (1 / 10)" and dX = "Finite 0"
      and dY = "Finite 0" and A = ieee_arith]
  note t2 = endpoint_mapping [OF h h, where zoom = 1 and offsetX = 0 and offsetY = 0
      and x = 1 and y = 0 and dzoom = "f_lit ieee_arith (1 / 10)" and dX = "Finite 0"
      and dY = "Finite 0" and A = ieee_arith]
  show ?thesis
    using t1 t2 f nz unfolding b l by auto
qed

subsection \<open>C7: invalid dimensions and caps\<close>

text \<open>
  Claim C7 says that a render with \<open>width < 2\<close>, \<open>height < 2\<close> or
  \<open>maxIterations \<le> 0\<close> is rejected before rendering begins. \<open>generateMandelbrot\<close>
  checks none of its arguments. As amended: no invocation is rejected for its
  dimensions or its cap; whenever \<open>width * height\<close> is within \<open>int\<close> and
  \<open>maxIterations \<le> 8421504\<close>, the run either fails in the vector's constructor
  (\<open>width * height < 0\<close>) or completes with a buffer of \<open>width * height\<close> pixels,
  also for \<open>width < 2\<close>, \<open>height < 2\<close> and \<open>maxIterations \<le> 0\<close>.
\<close>

theorem render_validates_nothing:
  assumes "in_int (width * height)" "maxIterations \<le> 8421504"
  shows "if width * height < 0
     then generateMandelbrot A width height maxIterations zoom offsetX offsetY = Inl LengthError
     else \<exists>buf. generateMandelbrot A width height maxIterations zoom offsetX offsetY = Inr buf \<and>
            int (length buf) = width * height"
proof (cases "width * height < 0")
  case True
  then show ?thesis using assms(1) by (simp add: generateMandelbrot_def)
next
  case False
  have ok: "\<forall>x y. 0 \<le> x \<and> x < width \<and> 0 \<le> y \<and> y < height \<longrightarrow>
      (\<exists>col. pixelColor A width height maxIterations zoom offsetX offsetY x y = Inr col)"
    by (intro allI impI pixelColor_ok assms(2))
  have nn: "0 \<le> width * height" using False by simp
  show ?thesis
    using generateMandelbrot_spec [OF ok nn assms(1)] False by auto
qed

text \<open>
  The claim as stated fails at \<open>width = height = 1\<close>, \<open>maxIterations = 0\<close>: the run
  completes with one black pixel.
\<close>

theorem render_validates_nothing_counterexample:
  "generateMandelbrot ieee_arith 1 1 0 (Finite 1) (Finite 0) (Finite 0) = Inr [black]"
proof -
  have p: "pixelColor ieee_arith 1 1 0 (Finite 1) (Finite 0) (Finite 0) 0 0 = Inr black"
    by (rule pixelColor_nonpositive_cap) simp
  have x: "x_loop ieee_arith 1 1 0 (Finite 1) (Finite 0) (Finite 0) 0 0 [black] = Inr [black]"
    by (subst x_loop.simps, simp add: p in_int_def INT_MIN_def INT_MAX_def)
      (simp add: x_loop_stop)
  have "y_loop ieee_arith 1 1 0 (Finite 1) (Finite 0) (Finite 0) 0 [black] = Inr [black]"
    by (rule y_loop_eval_go [OF _ x]) (simp_all add: y_loop_stop)
  then show ?thesis
    by (simp add: generateMandelbrot_def in_int_def INT_MIN_def INT_MAX_def black_def)
qed

theorem render_validates_nothing_witness:
  "in_int (1 * 1) \<and> (0::int) \<le> 8421504 \<and>
   (\<exists>buf. generateMandelbrot ieee_arith 1 1 0 (Finite 1) (Finite 0) (Finite 0) = Inr buf \<and>
      int (length buf) = 1 * 1)"
proof -
  have h: "in_int (1 * 1)" "(0::int) \<le> 8421504"
    by (simp_all add: in_int_def INT_MIN_def INT_MAX_def)
  show ?thesis
    using render_validates_nothing [OF h, of ieee_arith "Finite 1" "Finite 0" "Finite 0"] h
    by simp
qed

subsection \<open>C8: a cap of zero or less\<close>

text \<open>
  Claim C8: for every \<open>c\<close> and every \<open>maxIterations \<le> 0\<close> the loop returns 0 and makes
  no update: its guard is false at the first test. Proved for every arithmetic.
\<close>

theorem escapeTime_nonpositive_cap:
  assumes "maxIterations \<le> 0"
  shows "escapeTime A c maxIterations = 0 \<and>
     \<not> (bounded A (f_lit A 0, f_lit A 0) \<and> 0 < maxIterations)"
  using assms by (simp add: escapeTime_def escape_loop_done)

theorem escapeTime_nonpositive_cap_witness:
  "(- 3 :: int) \<le> 0 \<and> escapeTime ieee_arith (Finite 2, Finite 0) (- 3) = 0"
proof -
  have h: "(- 3 :: int) \<le> 0" by simp
  show ?thesis using escapeTime_nonpositive_cap [OF h, of ieee_arith "(Finite 2, Finite 0)"] by simp
qed

subsection \<open>C9: the 4 by 4 render\<close>

text \<open>
  Claim C9: \<open>render(4, 4, 10, 1.0, 0, 0)\<close> completes with a buffer of 16 elements,
  every channel of every element is in \<open>[0, 255]\<close>, and for all \<open>x, y\<close> in \<open>[0, 4)\<close> the
  element at index \<open>y * 4 + x\<close> is the colour computed for pixel \<open>(x, y)\<close>. Proved for
  every arithmetic.
\<close>

theorem render_4x4:
  "\<exists>buf. generateMandelbrot A 4 4 10 (f_lit A 1) (f_lit A 0) (f_lit A 0) = Inr buf \<and>
     length buf = 16 \<and>
     (\<forall>p \<in> set buf. unat (r p) \<le> 255 \<and> unat (g p) \<le> 255 \<and> unat (b p) \<le> 255) \<and>
     (\<forall>x y. 0 \<le> x \<and> x < 4 \<and> 0 \<le> y \<and> y < 4 \<longrightarrow>
        Inr (buf ! nat (y * 4 + x)) =
          pixelColor A 4 4 10 (f_lit A 1) (f_lit A 0) (f_lit A 0) x y)"
proof -
  have ok: "\<forall>x y. 0 \<le> x \<and> x < 4 \<and> 0 \<le> y \<and> y < 4 \<longrightarrow>
      (\<exists>col. pixelColor A 4 4 10 (f_lit A 1) (f_lit A 0) (f_lit A 0) x y = Inr col)"
    by (intro allI impI pixelColor_ok) simp
  have "\<exists>buf. generateMandelbrot A 4 4 10 (f_lit A 1) (f_lit A 0) (f_lit A 0) = Inr buf \<and>
      int (length buf) = 4 * 4 \<and>
      (\<forall>x y. 0 \<le> x \<and> x < 4 \<and> 0 \<le> y \<and> y < 4 \<longrightarrow>
         Inr (buf ! nat (y * 4 + x)) =
           pixelColor A 4 4 10 (f_lit A 1) (f_lit A 0) (f_lit A 0) x y)"
    by (rule generateMandelbrot_spec [OF ok]) (simp_all add: in_int_def INT_MIN_def INT_MAX_def)
  then obtain buf where
    buf: "generateMandelbrot A 4 4 10 (f_lit A 1) (f_lit A 0) (f_lit A 0) = Inr buf"
    and len: "int (length buf) = 4 * 4"
    and px: "\<forall>x y. 0 \<le> x \<and> x < 4 \<and> 0 \<le> y \<and> y < 4 \<longrightarrow>
         Inr (buf ! nat (y * 4 + x)) =
           pixelColor A 4 4 10 (f_lit A 1) (f_lit A 0) (f_lit A 0) x y"
    by (elim exE conjE)
  have ch: "unat w \<le> 255" for w :: "8 word"
    using unsigned_less [of w, where 'a = nat] by simp
  have "length buf = 16" using len by simp
  then show ?thesis using buf px ch by simp
qed

theorem render_4x4_witness:
  "\<exists>buf. generateMandelbrot real_arith 4 4 10 1 0 0 = Inr buf \<and> length buf = 16 \<and>
     unat (r (buf ! 9)) \<le> 255 \<and>
     Inr (buf ! 9) = pixelColor real_arith 4 4 10 1 0 0 1 2 \<and>
     buf ! 9 = \<lparr>r = 127, g = 254, b = 253\<rparr>"
proof -
  have l: "f_lit real_arith 1 = 1" "f_lit real_arith 0 = 0"
    by (simp_all add: real_arith_def)
  obtain buf where buf: "generateMandelbrot real_arith 4 4 10 1 0 0 = Inr buf"
    and len: "length buf = 16"
    and ch: "\<forall>p \<in> set buf. unat (r p) \<le> 255 \<and> unat (g p) \<le> 255 \<and> unat (b p) \<le> 255"
    and px: "\<forall>x y. 0 \<le> x \<and> x < 4 \<and> 0 \<le> y \<and> y < 4 \<longrightarrow>
        Inr (buf ! nat (y * 4 + x)) = pixelColor real_arith 4 4 10 1 0 0 x y"
    using render_4x4 [of real_arith] unfolding l by (elim exE conjE)
  have "buf ! 9 \<in> set buf" using len by simp
  then have "unat (r (buf ! 9)) \<le> 255" using ch by blast
  moreover have "Inr (buf ! nat (2 * 4 + 1)) = pixelColor real_arith 4 4 10 1 0 0 1 2"
    by (rule px [rule_format]) simp
  ultimately show ?thesis using buf len px12 by simp
qed

subsection \<open>C10: no division by zero\<close>

text \<open>
  Claim C10: no call of \<open>getColor\<close> made by \<open>generateMandelbrot\<close> divides by zero.
  With \<open>maxIterations = 0\<close> the loop returns 0, so \<open>getColor\<close> takes its first branch
  and returns black, and the render is a buffer of black pixels. Proved for every
  arithmetic: the run never ends in \<open>DivisionByZero\<close>, nor does the colour of any
  pixel; and with \<open>maxIterations = 0\<close> and \<open>width * height\<close> in
  \<open>[0, INT_MAX]\<close> the result is \<open>width * height\<close> black pixels.
\<close>

theorem render_never_divides_by_zero:
  "generateMandelbrot A width height maxIterations zoom offsetX offsetY \<noteq> Inl DivisionByZero \<and>
   pixelColor A width height maxIterations zoom offsetX offsetY x y \<noteq> Inl DivisionByZero \<and>
   escapeTime A c 0 = 0 \<and>
   pixelColor A width height 0 zoom offsetX offsetY x y = Inr black \<and>
   (in_int (width * height) \<and> 0 \<le> width * height \<longrightarrow>
      generateMandelbrot A width height 0 zoom offsetX offsetY =
        Inr (replicate (nat (width * height)) black))"
proof -
  have "generateMandelbrot A width height 0 zoom offsetX offsetY =
        Inr (replicate (nat (width * height)) black)"
    if "in_int (width * height)" "0 \<le> width * height"
    using that by (intro generateMandelbrot_uniform) (simp_all add: pixelColor_nonpositive_cap)
  then show ?thesis
    by (simp add: generateMandelbrot_no_div_by_zero pixelColor_no_div_by_zero
        pixelColor_nonpositive_cap escapeTime_def escape_loop_done)
qed

theorem render_never_divides_by_zero_witness:
  "generateMandelbrot ieee_arith 2 2 0 (Finite 1) (Finite 0) (Finite 0) \<noteq> Inl DivisionByZero \<and>
   in_int (2 * 2) \<and> (0::int) \<le> 2 * 2 \<and>
   generateMandelbrot ieee_arith 2 2 0 (Finite 1) (Finite 0) (Finite 0) =
     Inr [black, black, black, black]"
proof -
  have h: "in_int (2 * 2) \<and> (0::int) \<le> 2 * 2"
    by (simp add: in_int_def INT_MIN_def INT_MAX_def)
  have "replicate (nat (2 * 2)) black = [black, black, black, black]"
    by (simp add: numeral_eq_Suc)
  then show ?thesis
    using render_never_divides_by_zero
      [of ieee_arith 2 2 0 "Finite 1" "Finite 0" "Finite 0" 0 0 "(Finite 0, Finite 0)"] h
    by simp
qed

end
